theory Spec2Isabelle
  imports Main "HOL-Library.Word" "HOL-Library.Multiset"
begin

section \<open>Strings as the scripts use them\<close>

text \<open>
  A JavaScript string is modelled as a \<^typ>\<open>string\<close> whose characters are the code units
  below 256 (Latin-1). \<open>String.prototype.trim\<close> removes white space and line terminators
  at both ends; in this range these are tab, line feed, vertical tab, form feed, carriage
  return, space and the no-break space. \<open>toLowerCase\<close> maps \<open>A\<close>..\<open>Z\<close> and the Latin-1
  capitals (192..222 without the multiplication sign 215) to the letter 32 places higher.
\<close>

definition is_js_space :: "char \<Rightarrow> bool" where
  "is_js_space c = (of_char c \<in> {9, 10, 11, 12, 13, 32, 160 :: nat})"

definition js_trim :: "string \<Rightarrow> string" where
  "js_trim s = rev (dropWhile is_js_space (rev (dropWhile is_js_space s)))"

definition lower_char :: "char \<Rightarrow> char" where
  "lower_char c =
     (let n = of_char c :: nat
      in if (65 \<le> n \<and> n \<le> 90) \<or> (192 \<le> n \<and> n \<le> 222 \<and> n \<noteq> 215)
         then char_of (n + 32) else c)"

definition toLowerCase :: "string \<Rightarrow> string" where
  "toLowerCase s = map lower_char s"

text \<open>\<open>hay.includes(needle)\<close>: the needle occurs in the haystack as a contiguous run.\<close>

fun js_includes :: "string \<Rightarrow> string \<Rightarrow> bool" where
  "js_includes [] needle = (needle = [])"
| "js_includes (h # hs) needle =
     (take (length needle) (h # hs) = needle \<or> js_includes hs needle)"

section \<open>The wire format\<close>

text \<open>
  An item entry of the JSON file is a bare string (the legacy form), an object whose
  \<open>src\<close> and \<open>name\<close> are strings or absent, or some other value that is neither a string
  nor an object with these keys (a number, a boolean, an array).  A row entry has a name,
  and a color and an item array that may be absent; the root has a title, and rows and
  untiered items that may be absent.  Values of other shapes (a \<open>null\<close> entry, a row that
  is not an object, a title that is not a string) are outside these types.

  \<open>JSON.stringify\<close> followed by \<open>JSON.parse\<close> gives back such a value as it was, so
  the functions below pass the value itself and not its text.
\<close>

datatype item_entry =
    StrEntry string
  | ObjEntry (e_src: "string option") (e_name: "string option")
  | OtherEntry

record row_entry =
  re_name :: string
  re_color :: "string option"
  re_imgs :: "item_entry list option"

record tierlist_json =
  tj_title :: string
  tj_rows :: "row_entry list option"
  tj_untiered :: "item_entry list option"

section \<open>The duplicate-removal utility (util/remove\_duplicates.js)\<close>

subsection \<open>Loading and validating the file\<close>

text \<open>
  What \<open>loadJsonFile\<close> looks at in the parsed value: whether the root is a non-null object,
  and whether \<open>rows\<close> and \<open>untiered\<close> are arrays, something else, or absent.
\<close>

datatype 'a js_field = Undefined | NotArray | IsArray 'a

datatype parsed_root =
    NotObject
  | Object (p_title: string) (p_rows: "row_entry list js_field")
      (p_untiered: "item_entry list js_field")

record file_data =
  fd_title :: string
  fd_rows :: "row_entry list"
  fd_untiered :: "item_entry list option"

definition loadJsonFile :: "parsed_root \<Rightarrow> string + file_data" where
  "loadJsonFile parsed =
     (case parsed of
        NotObject \<Rightarrow> Inl ''Invalid JSON: root must be an object''
      | Object t rs u \<Rightarrow>
          (case rs of
             IsArray rws \<Rightarrow>
               (case u of
                  NotArray \<Rightarrow> Inl ''Invalid JSON: \"untiered\" must be an array if present''
                | Undefined \<Rightarrow> Inr \<lparr>fd_title = t, fd_rows = rws, fd_untiered = None\<rparr>
                | IsArray us \<Rightarrow> Inr \<lparr>fd_title = t, fd_rows = rws, fd_untiered = Some us\<rparr>)
           | _ \<Rightarrow> Inl ''Invalid JSON: \"rows\" must be an array''))"

subsection \<open>Names that count as duplicates\<close>

definition normalizeName :: "string \<Rightarrow> string" where
  "normalizeName name = js_trim (toLowerCase name)"

definition isDuplicate :: "string \<Rightarrow> string \<Rightarrow> bool" where
  "isDuplicate name1 name2 =
     (let norm1 = normalizeName name1; norm2 = normalizeName name2
      in if norm1 = norm2 then True
         else if length norm1 < length norm2 then js_includes norm2 norm1
         else if length norm2 < length norm1 then js_includes norm1 norm2
         else False)"

subsection \<open>Collecting the entries\<close>

text \<open>
  \<open>collectAllEntries\<close> keeps the items that are objects with a non-empty \<open>name\<close>, each
  with the place it was found at.  Two collected entries are the same JavaScript object
  exactly when their locations agree, so equality of \<open>entry\<close> values stands for \<open>===\<close>.
\<close>

datatype location = Tier (tierName: string) (rowIndex: nat) (itemIndex: nat) | Untiered nat

record entry =
  en_src :: "string option"
  en_name :: string
  en_loc :: location

fun collect_item :: "(nat \<Rightarrow> location) \<Rightarrow> item_entry \<times> nat \<Rightarrow> entry list" where
  "collect_item at (ObjEntry s (Some n), i) =
     (if n \<noteq> [] then [\<lparr>en_src = s, en_name = n, en_loc = at i\<rparr>] else [])"
| "collect_item at (_, i) = []"

definition collect_items :: "(nat \<Rightarrow> location) \<Rightarrow> item_entry list \<Rightarrow> entry list" where
  "collect_items at items = concat (map (collect_item at) (zip items [0..<length items]))"

definition collect_row :: "row_entry \<times> nat \<Rightarrow> entry list" where
  "collect_row p =
     (case p of (row, r) \<Rightarrow>
        (case re_imgs row of
           Some items \<Rightarrow> collect_items (Tier (re_name row) r) items
         | None \<Rightarrow> []))"

definition collectAllEntries :: "file_data \<Rightarrow> entry list" where
  "collectAllEntries jsonData =
     concat (map collect_row (zip (fd_rows jsonData) [0..<length (fd_rows jsonData)]))
     @ (case fd_untiered jsonData of Some items \<Rightarrow> collect_items Untiered items | None \<Rightarrow> [])"

subsection \<open>Grouping\<close>

text \<open>
  One pass of the inner \<open>for j\<close> loop: an unprocessed entry that is a duplicate of some
  member of the group, as the group stands at that moment, joins it.
\<close>

definition scan_step ::
  "entry list \<Rightarrow> nat \<Rightarrow> entry list \<times> nat set \<times> bool \<Rightarrow> entry list \<times> nat set \<times> bool" where
  "scan_step entries j st =
     (case st of (grp, processed, foundNew) \<Rightarrow>
        if j \<in> processed then st
        else if list_ex (\<lambda>groupEntry. isDuplicate (en_name groupEntry) (en_name (entries ! j))) grp
        then (grp @ [entries ! j], insert j processed, True)
        else st)"

definition scan_pass :: "entry list \<Rightarrow> entry list \<Rightarrow> nat set \<Rightarrow> entry list \<times> nat set \<times> bool" where
  "scan_pass entries grp processed =
     fold (scan_step entries) [0..<length entries] (grp, processed, False)"

lemma scan_fold_grows:
  "fold (scan_step entries) js (g, p, f) = (g', p', f') \<Longrightarrow>
     p \<subseteq> p' \<and> p' \<subseteq> p \<union> set js \<and> (f' \<longrightarrow> f \<or> p \<noteq> p')"
proof (induction js arbitrary: g p f)
  case Nil
  then show ?case by simp
next
  case (Cons j js)
  obtain g1 p1 f1 where s: "scan_step entries j (g, p, f) = (g1, p1, f1)"
    by (cases "scan_step entries j (g, p, f)") auto
  from s have a: "p \<subseteq> p1" "p1 \<subseteq> insert j p" "f1 \<longrightarrow> f \<or> p \<noteq> p1"
    by (auto simp: scan_step_def split: if_splits)
  from Cons.prems s have "fold (scan_step entries) js (g1, p1, f1) = (g', p', f')"
    by simp
  from Cons.IH [OF this] have b: "p1 \<subseteq> p'" "p' \<subseteq> p1 \<union> set js" "f' \<longrightarrow> f1 \<or> p1 \<noteq> p'"
    by auto
  from a b show ?case by auto
qed

lemma scan_pass_found:
  assumes "scan_pass entries grp processed = (g', p', True)"
  shows "card ({..<length entries} - p') < card ({..<length entries} - processed)"
proof -
  from scan_fold_grows [OF assms [unfolded scan_pass_def]]
  have "processed \<subseteq> p'" "p' \<subseteq> processed \<union> {..<length entries}" "processed \<noteq> p'"
    by (auto simp: lessThan_atLeast0)
  then have "{..<length entries} - p' \<subset> {..<length entries} - processed"
    by blast
  then show ?thesis
    by (intro psubset_card_mono) auto
qed

text \<open>The \<open>while (foundNew)\<close> loop: passes are repeated until one adds nothing.\<close>

function grow_group :: "entry list \<Rightarrow> entry list \<Rightarrow> nat set \<Rightarrow> entry list \<times> nat set" where
  "grow_group entries grp processed =
     (case scan_pass entries grp processed of
        (g', p', foundNew) \<Rightarrow> if foundNew then grow_group entries g' p' else (g', p'))"
  by pat_completeness auto
termination
  by (relation "measure (\<lambda>(entries, grp, processed). card ({..<length entries} - processed))")
    (auto intro: scan_pass_found [OF sym])

declare grow_group.simps [simp del]

definition group_step ::
  "entry list \<Rightarrow> nat \<Rightarrow> entry list list \<times> nat set \<Rightarrow> entry list list \<times> nat set" where
  "group_step entries i st =
     (case st of (groups, processed) \<Rightarrow>
        if i \<in> processed then st
        else (case grow_group entries [entries ! i] (insert i processed) of
                (grp, processed') \<Rightarrow>
                  (if length grp > 1 then groups @ [grp] else groups, processed')))"

definition findDuplicateGroups :: "entry list \<Rightarrow> entry list list" where
  "findDuplicateGroups entries = fst (fold (group_step entries) [0..<length entries] ([], {}))"

text \<open>
  \<open>group.reduce(...)\<close> without an initial value: a \<open>TypeError\<close> on an empty array, else the
  first entry among those with the shortest name.
\<close>

datatype js_error = TypeError

fun keepShortestEntry :: "entry list \<Rightarrow> js_error + entry" where
  "keepShortestEntry [] = Inl TypeError"
| "keepShortestEntry (first # others) =
     Inr (foldl (\<lambda>shortest current.
                   if length (en_name current) < length (en_name shortest) then current
                   else shortest) first others)"

subsection \<open>Removing the duplicates\<close>

datatype removal_id = TierId nat nat | UntieredId nat

fun id_of :: "location \<Rightarrow> removal_id" where
  "id_of (Tier _ r i) = TierId r i"
| "id_of (Untiered i) = UntieredId i"

definition group_removals :: "entry list \<Rightarrow> js_error + removal_id list" where
  "group_removals grp =
     (case keepShortestEntry grp of
        Inl e \<Rightarrow> Inl e
      | Inr kept \<Rightarrow> Inr (map (id_of \<circ> en_loc) (filter (\<lambda>e. e \<noteq> kept) grp)))"

fun entriesToRemove :: "entry list list \<Rightarrow> js_error + removal_id set" where
  "entriesToRemove [] = Inr {}"
| "entriesToRemove (grp # groups) =
     (case group_removals grp of
        Inl e \<Rightarrow> Inl e
      | Inr ids \<Rightarrow>
          (case entriesToRemove groups of
             Inl e \<Rightarrow> Inl e
           | Inr rest \<Rightarrow> Inr (set ids \<union> rest)))"

text \<open>The backward \<open>for\<close> loop with \<open>splice(i, 1)\<close>.\<close>

definition splice1 :: "nat \<Rightarrow> 'a list \<Rightarrow> 'a list" where
  "splice1 i xs = take i xs @ drop (Suc i) xs"

definition remove_marked :: "(nat \<Rightarrow> removal_id) \<Rightarrow> removal_id set \<Rightarrow> 'a list \<Rightarrow> 'a list" where
  "remove_marked mk ids xs =
     fold (\<lambda>i ys. if mk i \<in> ids then splice1 i ys else ys) (rev [0..<length xs]) xs"

definition clean_row :: "removal_id set \<Rightarrow> row_entry \<times> nat \<Rightarrow> row_entry" where
  "clean_row ids p =
     (case p of (row, r) \<Rightarrow>
        (case re_imgs row of
           Some items \<Rightarrow> row\<lparr>re_imgs := Some (remove_marked (TierId r) ids items)\<rparr>
         | None \<Rightarrow> row))"

definition removeDuplicatesFromTierlist ::
  "file_data \<Rightarrow> entry list list \<Rightarrow> js_error + file_data" where
  "removeDuplicatesFromTierlist jsonData duplicateGroups =
     (case entriesToRemove duplicateGroups of
        Inl e \<Rightarrow> Inl e
      | Inr ids \<Rightarrow>
          Inr (jsonData
            \<lparr>fd_rows := map (clean_row ids) (zip (fd_rows jsonData) [0..<length (fd_rows jsonData)]),
             fd_untiered := map_option (remove_marked UntieredId ids) (fd_untiered jsonData)\<rparr>))"

subsection \<open>The run of the utility\<close>

text \<open>
  What \<open>main\<close> meets outside itself: whether the file exists, what reading and parsing it
  gives (a message when that fails), the groups the user chose to skip (the result of
  \<open>requestGroupsToSkip\<close>), the answers to the two yes/no questions, and whether copying the
  file to its backup and writing the file succeed.  What it does to the file system is a
  list of effects in the order they happen; the run ends normally or with
  \<open>process.exit(1)\<close>.
\<close>

record env =
  file_exists :: bool
  file_parsed :: "string + parsed_root"
  skipped_groups :: "nat list"
  approval_answer :: string
  backup_succeeds :: bool
  continue_answer :: string
  write_succeeds :: bool

datatype effect = BackupCreated | FileWritten file_data

datatype ending = Finished | Exit1

definition says_yes :: "string \<Rightarrow> bool" where
  "says_yes answer = (js_trim (toLowerCase answer) = ''y'' \<or> js_trim (toLowerCase answer) = ''yes'')"

definition write_cleaned :: "env \<Rightarrow> effect list \<Rightarrow> file_data \<Rightarrow> entry list list
     \<Rightarrow> effect list \<times> ending" where
  "write_cleaned e done jsonData selectedGroups =
     (case removeDuplicatesFromTierlist jsonData selectedGroups of
        Inl _ \<Rightarrow> (done, Exit1)
      | Inr cleanedData \<Rightarrow>
          (done @ [FileWritten cleanedData], if write_succeeds e then Finished else Exit1))"

definition process_groups :: "env \<Rightarrow> file_data \<Rightarrow> entry list list \<Rightarrow> effect list \<times> ending" where
  "process_groups e jsonData duplicateGroups =
     (let selectedGroupIndices =
            filter (\<lambda>idx. idx \<notin> set (skipped_groups e)) [0..<length duplicateGroups]
      in if length selectedGroupIndices = 0 then ([], Finished)
         else
           (let selectedGroups = map (\<lambda>idx. duplicateGroups ! idx) selectedGroupIndices
            in if \<not> says_yes (approval_answer e) then ([], Finished)
               else if backup_succeeds e
                    then write_cleaned e [BackupCreated] jsonData selectedGroups
               else if \<not> says_yes (continue_answer e) then ([], Finished)
               else write_cleaned e [] jsonData selectedGroups))"

definition main :: "env \<Rightarrow> effect list \<times> ending" where
  "main e =
     (if \<not> file_exists e then ([], Exit1)
      else
        (case file_parsed e of
           Inl _ \<Rightarrow> ([], Exit1)
         | Inr parsed \<Rightarrow>
             (case loadJsonFile parsed of
                Inl _ \<Rightarrow> ([], Exit1)
              | Inr jsonData \<Rightarrow>
                  (let duplicateGroups = findDuplicateGroups (collectAllEntries jsonData)
                   in if length duplicateGroups = 0 then ([], Finished)
                      else process_groups e jsonData duplicateGroups))))"

section \<open>The tierlist page (tiers.js)\<close>

subsection \<open>The page as the Document\<close>

text \<open>
  The page keeps the tierlist in its element tree.  An item is a \<open>div.item-container\<close>
  holding an \<open>img.draggable\<close> and a \<open>span.item-label\<close>; the model keeps the image's
  \<open>src\<close> and the label's \<open>textContent\<close> (every item of the page is made by
  \<open>create_item_with_src_and_name\<close>).  In a row each container sits in a \<open>span.item\<close> of
  the row's \<open>span.items\<close>.  In the untiered pool (\<open>section.images\<close>) a container lies
  bare, as the import, the load and \<open>reset_row\<close> put it there, or inside a \<open>span.item\<close>,
  as the drop handler leaves it.  A row header has a label and a background colour, which
  the browser keeps as three bytes once it has been set.

  Reading back \<open>img.src\<close> and \<open>innerText\<close> is taken to return the string that was
  stored.  How the browser reads a colour string is a parameter \<open>css\<close> of the functions
  that assign one: \<open>None\<close> when it rejects the string, which leaves the style as it was.
  The flag \<open>unsaved_changes\<close>, the widths of the headers, the colour pickers and the
  placement marker are not part of the Document and are left out.
\<close>

record item =
  src :: string
  name :: string

datatype pool_child = Bare item | Wrapped item

fun pool_item :: "pool_child \<Rightarrow> item" where
  "pool_item (Bare it) = it"
| "pool_item (Wrapped it) = it"

type_synonym rgb = "8 word \<times> 8 word \<times> 8 word"

record row =
  label :: string
  background :: "rgb option"
  items :: "item list"

record page =
  title :: string
  rows :: "row list"
  images :: "pool_child list"

definition MAX_NAME_LEN :: nat where
  "MAX_NAME_LEN = 200"

definition DEFAULT_TIERS :: "string list" where
  "DEFAULT_TIERS = [''S'', ''A'', ''B'', ''C'', ''D'', ''E'', ''F'']"

definition TIER_COLORS :: "string list" where
  "TIER_COLORS = [''#ff6666'', ''#f0a731'', ''#f4d95b'', ''#66ff66'', ''#58c8f4'',
                  ''#5b76f4'', ''#f45bed'']"

definition set_background :: "(string \<Rightarrow> rgb option) \<Rightarrow> string \<Rightarrow> row \<Rightarrow> row" where
  "set_background css color r =
     (case css color of Some c \<Rightarrow> r\<lparr>background := Some c\<rparr> | None \<Rightarrow> r)"

subsection \<open>Rows\<close>

text \<open>
  \<open>add_row\<close> inserts the new row before the row now at \<open>index\<close>, or at the end when there
  is none (\<open>insertBefore\<close> with an undefined reference node appends).  The header of the
  new row has no background yet.
\<close>

definition add_row :: "nat \<Rightarrow> string \<Rightarrow> page \<Rightarrow> page" where
  "add_row index nm p =
     p\<lparr>rows := take index (rows p)
                 @ [\<lparr>label = nm, background = None, items = []\<rparr>]
                 @ drop index (rows p)\<rparr>"

definition recolor_at :: "(string \<Rightarrow> rgb option) \<Rightarrow> row \<times> nat \<Rightarrow> row" where
  "recolor_at css rp =
     (case rp of (r, row_idx) \<Rightarrow>
        set_background css (TIER_COLORS ! (row_idx mod length TIER_COLORS)) r)"

text \<open>\<open>recompute_header_colors()\<close> without an argument recolours every row by its position.\<close>

definition recompute_all_header_colors :: "(string \<Rightarrow> rgb option) \<Rightarrow> page \<Rightarrow> page" where
  "recompute_all_header_colors css p =
     p\<lparr>rows := map (recolor_at css) (zip (rows p) [0..<length (rows p)])\<rparr>"

text \<open>
  \<open>recompute_header_colors(idx)\<close>: \<open>rows[idx].querySelector\<close> is a \<open>TypeError\<close> when there
  is no such row.
\<close>

definition recompute_header_colors ::
  "(string \<Rightarrow> rgb option) \<Rightarrow> nat \<Rightarrow> page \<Rightarrow> js_error + page" where
  "recompute_header_colors css idx p =
     (if idx < length (rows p)
      then Inr (p\<lparr>rows := (rows p)[idx := recolor_at css (rows p ! idx, idx)]\<rparr>)
      else Inl TypeError)"

text \<open>
  \<open>reset_row\<close> moves the container of every \<open>span.item\<close> of the row to the end of the
  pool and removes the span; here it is given the row and returns the emptied row with the
  new pool.
\<close>

definition reset_row :: "row \<Rightarrow> pool_child list \<Rightarrow> row \<times> pool_child list" where
  "reset_row r pool = (r\<lparr>items := []\<rparr>, pool @ map Bare (items r))"

definition rm_row :: "nat \<Rightarrow> page \<Rightarrow> js_error + page" where
  "rm_row idx p =
     (if idx < length (rows p)
      then (case reset_row (rows p ! idx) (images p) of
              (emptied, pool) \<Rightarrow>
                Inr (p\<lparr>rows := splice1 idx ((rows p)[idx := emptied]), images := pool\<rparr>))
      else Inl TypeError)"

definition hard_reset_list :: "page \<Rightarrow> page" where
  "hard_reset_list p = p\<lparr>rows := [], images := []\<rparr>"

definition soft_reset_list :: "page \<Rightarrow> page" where
  "soft_reset_list p =
     fold (\<lambda>i q. case reset_row (rows q ! i) (images q) of
                    (emptied, pool) \<Rightarrow> q\<lparr>rows := (rows q)[i := emptied], images := pool\<rparr>)
          [0..<length (rows p)] p"

subsection \<open>The three buttons of a row\<close>

text \<open>
  A click on a button of the row at position \<open>r\<close>.  The remove button asks for
  confirmation when the row holds images; the answer comes with the click.  The lower
  \<open>+\<close> button passes on the name its row was created with, which the handler's closure
  holds; it comes with the click too.  A row that is not in the page has no buttons, so
  such a click changes nothing.
\<close>

datatype click = PlusUp nat | Remove nat bool | PlusDown nat string

definition after_add :: "(string \<Rightarrow> rgb option) \<Rightarrow> nat \<Rightarrow> page \<Rightarrow> page" where
  "after_add css idx p = (case recompute_header_colors css idx p of Inr q \<Rightarrow> q | Inl _ \<Rightarrow> p)"

fun click_handler :: "(string \<Rightarrow> rgb option) \<Rightarrow> click \<Rightarrow> page \<Rightarrow> page" where
  "click_handler css (PlusUp r) p =
     (if r < length (rows p) then after_add css r (add_row r [] p) else p)"
| "click_handler css (Remove r confirmed) p =
     (if r < length (rows p) then
        (if length (rows p) < 2 then p
         else if items (rows p ! r) = [] \<or> confirmed
              then (case rm_row r p of Inr q \<Rightarrow> q | Inl _ \<Rightarrow> p)
              else p)
      else p)"
| "click_handler css (PlusDown r nm) p =
     (if r < length (rows p) then after_add css (Suc r) (add_row (Suc r) nm p) else p)"

text \<open>The page as the \<open>load\<close> listener builds it: the seven default tiers, recoloured.\<close>

definition default_page :: "(string \<Rightarrow> rgb option) \<Rightarrow> string \<Rightarrow> page" where
  "default_page css t =
     recompute_all_header_colors css
       (fold (\<lambda>i. add_row i (DEFAULT_TIERS ! i)) [0..<length DEFAULT_TIERS]
          \<lparr>title = t, rows = [], images = []\<rparr>)"

subsection \<open>Saving\<close>

text \<open>\<open>Number.prototype.toString(16)\<close> on a natural number.\<close>

definition hex_digit :: "nat \<Rightarrow> char" where
  "hex_digit d = ''0123456789abcdef'' ! d"

function to_hex :: "nat \<Rightarrow> string" where
  "to_hex n = (if n < 16 then [hex_digit n] else to_hex (n div 16) @ [hex_digit (n mod 16)])"
  by pat_completeness auto
termination
  by (relation "measure id") auto

declare to_hex.simps [simp del]

text \<open>
  \<open>rgb_to_hex(r, g, b)\<close> is \<open>"#" + (1 << 24 | r << 16 | g << 8 | b).toString(16).slice(1)\<close>.
  The components are the decimal numbers of the header's \<open>rgb(r, g, b)\<close> style, below
  256, so no bit leaves the 32 bits JavaScript computes in.  A header without a background
  gives an empty first component and undefined others, which the shifts read as 0.
\<close>

definition rgb_to_hex :: "nat \<Rightarrow> nat \<Rightarrow> nat \<Rightarrow> string" where
  "rgb_to_hex r g b =
     CHR ''#'' # drop 1 (to_hex (or (push_bit 24 1) (or (push_bit 16 r) (or (push_bit 8 g) b))))"

definition color_hex :: "rgb option \<Rightarrow> string" where
  "color_hex bg =
     (case bg of
        Some (r, g, b) \<Rightarrow> rgb_to_hex (unat r) (unat g) (unat b)
      | None \<Rightarrow> rgb_to_hex 0 0 0)"

definition save_item :: "item \<Rightarrow> item_entry" where
  "save_item it = ObjEntry (Some (src it)) (Some (js_trim (name it)))"

text \<open>
  The images of a row: one object per container; only when that gives nothing, the bare
  \<open>src\<close> of every \<open>img.draggable\<close> of the row.
\<close>

definition save_row_imgs :: "item list \<Rightarrow> item_entry list" where
  "save_row_imgs its =
     (let imgs = map save_item its
      in if length imgs = 0 then map (\<lambda>it. StrEntry (src it)) its else imgs)"

definition save_row :: "row \<Rightarrow> row_entry" where
  "save_row r =
     \<lparr>re_name = take MAX_NAME_LEN (label r),
      re_color = Some (color_hex (background r)),
      re_imgs = Some (save_row_imgs (items r))\<rparr>"

text \<open>
  The untiered pool: \<open>querySelectorAll('.images .item-container, .images img.draggable')\<close>
  returns, in document order, every container of the pool and, right after it, the image
  inside it.  The loop pushes an object for a container and the bare \<open>src\<close> for an image.
\<close>

definition save_pool_child :: "pool_child \<Rightarrow> item_entry list" where
  "save_pool_child c = [save_item (pool_item c), StrEntry (src (pool_item c))]"

definition save_untiered :: "pool_child list \<Rightarrow> item_entry list option" where
  "save_untiered pool =
     (let untiered_imgs = concat (map save_pool_child pool)
      in if length untiered_imgs > 0 then Some untiered_imgs else None)"

definition save_tierlist :: "page \<Rightarrow> tierlist_json" where
  "save_tierlist p =
     \<lparr>tj_title = title p,
      tj_rows = Some (map save_row (rows p)),
      tj_untiered = save_untiered (images p)\<rparr>"

subsection \<open>Loading\<close>

text \<open>
  An item entry gives an item when it is a string (the legacy form, with an empty name) or
  an object with a non-empty \<open>src\<close> (a missing or empty \<open>name\<close> reads as empty); any other
  entry is skipped.
\<close>

fun load_item :: "item_entry \<Rightarrow> item option" where
  "load_item (StrEntry s) = Some \<lparr>src = s, name = []\<rparr>"
| "load_item (ObjEntry (Some s) n) =
     (if s \<noteq> [] then Some \<lparr>src = s, name = (case n of Some x \<Rightarrow> x | None \<Rightarrow> [])\<rparr>
      else None)"
| "load_item (ObjEntry None n) = None"
| "load_item OtherEntry = None"

definition load_items :: "item_entry list \<Rightarrow> item list" where
  "load_items es = List.map_filter load_item es"

text \<open>
  One round of the \<open>for (let idx in rows)\<close> loop.  \<open>add_row\<close> puts the new row at position
  \<open>idx\<close>, or at the end when the page has fewer rows.
\<close>

definition load_row :: "(string \<Rightarrow> rgb option) \<Rightarrow> row_entry \<times> nat \<Rightarrow> page \<Rightarrow> page" where
  "load_row css ri p =
     (case ri of (ser_row, idx) \<Rightarrow>
        (let at = min idx (length (rows p));
             p1 = add_row idx (re_name ser_row) p;
             elem = rows p1 ! at;
             elem1 = elem\<lparr>items := items elem
                        @ load_items (case re_imgs ser_row of Some is \<Rightarrow> is | None \<Rightarrow> []),
                      label := re_name ser_row\<rparr>
         in (case re_color ser_row of
               Some c \<Rightarrow> p1\<lparr>rows := (rows p1)[at := set_background css c elem1]\<rparr>
             | None \<Rightarrow> recompute_all_header_colors css (p1\<lparr>rows := (rows p1)[at := elem1]\<rparr>))))"

definition load_tierlist :: "(string \<Rightarrow> rgb option) \<Rightarrow> tierlist_json \<Rightarrow> page \<Rightarrow> page" where
  "load_tierlist css serialized_tierlist p =
     (let p1 = p\<lparr>title := tj_title serialized_tierlist\<rparr>;
          p2 = (case tj_rows serialized_tierlist of
                  Some rs \<Rightarrow> fold (load_row css) (zip rs [0..<length rs]) p1
                | None \<Rightarrow> p1)
      in (case tj_untiered serialized_tierlist of
            Some us \<Rightarrow> p2\<lparr>images := images p2 @ map Bare (load_items us)\<rparr>
          | None \<Rightarrow> p2))"

text \<open>
  The listener of the import input.  \<open>JSON.parse\<close> throws on a text that is not JSON, which
  ends the listener; a falsy value (\<open>null\<close>, \<open>false\<close>, \<open>0\<close>, \<open>""\<close>) gives the alert;
  anything else resets the page and is loaded.
\<close>

datatype import_text = NotJson | Falsy | Parsed tierlist_json

fun import_input ::
  "(string \<Rightarrow> rgb option) \<Rightarrow> import_text \<Rightarrow> page \<Rightarrow> page \<times> string option" where
  "import_input css NotJson p = (p, None)"
| "import_input css Falsy p = (p, Some ''Failed to parse data'')"
| "import_input css (Parsed parsed) p = (load_tierlist css parsed (hard_reset_list p), None)"

text \<open>
  A browser that reads a colour written as \<open>#\<close> and six hexadecimal digits, and nothing
  else: the instance of \<open>css\<close> used where a definite one is needed.
\<close>

definition hex_value :: "char \<Rightarrow> nat option" where
  "hex_value c =
     (let n = of_char c :: nat
      in if 48 \<le> n \<and> n \<le> 57 then Some (n - 48)
         else if 97 \<le> n \<and> n \<le> 102 then Some (n - 87)
         else if 65 \<le> n \<and> n \<le> 70 then Some (n - 55)
         else None)"

definition hex_byte :: "char \<Rightarrow> char \<Rightarrow> 8 word option" where
  "hex_byte hi lo =
     (case (hex_value hi, hex_value lo) of
        (Some h, Some l) \<Rightarrow> Some (of_nat (16 * h + l))
      | _ \<Rightarrow> None)"

fun hex_color :: "string \<Rightarrow> rgb option" where
  "hex_color [h, r1, r0, g1, g0, b1, b0] =
     (if h = CHR ''#'' then
        (case (hex_byte r1 r0, hex_byte g1 g0, hex_byte b1 b0) of
           (Some r, Some g, Some b) \<Rightarrow> Some (r, g, b)
         | _ \<Rightarrow> None)
      else None)"
| "hex_color _ = None"

subsection \<open>Dragging and dropping\<close>

text \<open>
  The values of \<open>old_item_index\<close> and \<open>target_item_index\<close>: undefined before the first
  assignment, \<open>null\<close> or a number from \<open>get_item_index\<close>, and \<open>NaN\<close> for \<open>undefined - 1\<close>.
  \<open><\<close> converts its operands to numbers (\<open>null\<close> to 0, \<open>undefined\<close> to \<open>NaN\<close>) and is
  false as soon as one is \<open>NaN\<close>.
\<close>

datatype js_index = Undef | Null | NaN | Idx int

fun to_number :: "js_index \<Rightarrow> int option" where
  "to_number (Idx n) = Some n"
| "to_number Null = Some 0"
| "to_number Undef = None"
| "to_number NaN = None"

definition js_less :: "js_index \<Rightarrow> js_index \<Rightarrow> bool" where
  "js_less a b =
     (case (to_number a, to_number b) of (Some x, Some y) \<Rightarrow> x < y | _ \<Rightarrow> False)"

definition minus_one :: "js_index \<Rightarrow> js_index" where
  "minus_one a = (case to_number a of Some x \<Rightarrow> Idx (x - 1) | None \<Rightarrow> NaN)"

text \<open>
  \<open>children[i]\<close> is the child at that position for an integer within range and undefined
  otherwise; \<open>insertBefore(td, undefined)\<close> appends.
\<close>

fun child_at :: "js_index \<Rightarrow> nat \<Rightarrow> nat option" where
  "child_at (Idx n) len = (if 0 \<le> n \<and> n < int len then Some (nat n) else None)"
| "child_at _ len = None"

definition insertBefore :: "'a list \<Rightarrow> 'a \<Rightarrow> nat option \<Rightarrow> 'a list" where
  "insertBefore children td ref =
     (case ref of Some k \<Rightarrow> take k children @ [td] @ drop k children
      | None \<Rightarrow> children @ [td])"

text \<open>
  Where the grabbed container is: in the \<open>k\<close>-th span of row \<open>i\<close>, or the \<open>k\<close>-th child of
  the pool.  The elements that accept a drop are the rows and the pool.  \<open>old_item_row\<close>
  and \<open>items_container.parentNode\<close> are a row or the parent of the pool.
\<close>

datatype place = InRow nat nat | InPool nat

datatype droppable = RowElem nat | ImagesElem

datatype node = RowDiv nat | ImagesParent

fun items_container_parent :: "droppable \<Rightarrow> node" where
  "items_container_parent (RowElem j) = RowDiv j"
| "items_container_parent ImagesElem = ImagesParent"

text \<open>
  Taking the grabbed item out of its place.  In a row, and in the pool when it is wrapped,
  its parent is a \<open>span.item\<close>: the span is removed and \<open>old_item_row\<close> becomes the parent of
  the span's parent.  A bare container of the pool is removed itself and \<open>old_item_row\<close>
  stays undefined.  A container that is nowhere in the page has no parent, and reading the
  parent's \<open>tagName\<close> is a \<open>TypeError\<close>.
\<close>

fun detach :: "page \<Rightarrow> place \<Rightarrow> js_error + (item \<times> page \<times> node option)" where
  "detach p (InRow i k) =
     (if i < length (rows p) \<and> k < length (items (rows p ! i))
      then Inr (items (rows p ! i) ! k,
                p\<lparr>rows := (rows p)[i := (rows p ! i)\<lparr>items := splice1 k (items (rows p ! i))\<rparr>]\<rparr>,
                Some (RowDiv i))
      else Inl TypeError)"
| "detach p (InPool k) =
     (if k < length (images p)
      then Inr (pool_item (images p ! k),
                p\<lparr>images := splice1 k (images p)\<rparr>,
                (case images p ! k of Bare _ \<Rightarrow> None | Wrapped _ \<Rightarrow> Some ImagesParent))
      else Inl TypeError)"

text \<open>
  Putting the span into the destination: appended when the event's target is the row
  itself, else before the child at \<open>target_item_index\<close>.
\<close>

fun attach :: "page \<Rightarrow> droppable \<Rightarrow> bool \<Rightarrow> js_index \<Rightarrow> item \<Rightarrow> js_error + page" where
  "attach p (RowElem j) on_row t it =
     (if j < length (rows p)
      then Inr (p\<lparr>rows := (rows p)[j := (rows p ! j)
                  \<lparr>items := (if on_row then items (rows p ! j) @ [it]
                             else insertBefore (items (rows p ! j)) it
                                    (child_at t (length (items (rows p ! j)))))\<rparr>]\<rparr>)
      else Inl TypeError)"
| "attach p ImagesElem on_row t it =
     Inr (p\<lparr>images := (if on_row then images p @ [Wrapped it]
                       else insertBefore (images p) (Wrapped it)
                              (child_at t (length (images p))))\<rparr>)"

text \<open>
  The \<open>drop\<close> listener of \<open>elem\<close>, given \<open>dragged_image\<close>, \<open>old_item_index\<close>, the
  \<open>target_item_index\<close> of this listener and whether the event's target has the class
  \<open>row\<close>.  It returns the page and the new \<open>target_item_index\<close>.
\<close>

definition on_drop ::
  "page \<Rightarrow> place option \<Rightarrow> js_index \<Rightarrow> js_index \<Rightarrow> droppable \<Rightarrow> bool
     \<Rightarrow> js_error + (page \<times> js_index)" where
  "on_drop p dragged_image old_item_index target_item_index elem on_row =
     (case dragged_image of
        None \<Rightarrow> Inr (p, target_item_index)
      | Some pl \<Rightarrow>
          (case detach p pl of
             Inl e \<Rightarrow> Inl e
           | Inr (it, p1, old_item_row) \<Rightarrow>
               (let t = (if Some (items_container_parent elem) = old_item_row
                            \<and> js_less old_item_index target_item_index
                         then minus_one target_item_index else target_item_index)
                in (case attach p1 elem on_row t it of
                      Inl e \<Rightarrow> Inl e
                    | Inr p2 \<Rightarrow> Inr (p2, t)))))"

text \<open>
  \<open>get_item_index\<close> for an element inside a row.  (For an element of the pool, and for a
  row itself, the result depends on the markup of the page around them, which is not part
  of the script.)  \<open>item_list\<close> holds, for every item of the row, its container and then
  its image, since the image matches \<open>.item img\<close> as well.
\<close>

datatype row_element =
    Header | HeaderLabel | ItemsSpan
  | ItemSpan nat | ItemContainer nat | ItemImg nat | ItemLabel nat

fun contains :: "row_element \<Rightarrow> row_element \<Rightarrow> bool" where
  "contains (ItemSpan k) e = (e = ItemSpan k \<or> e = ItemContainer k \<or> e = ItemImg k \<or> e = ItemLabel k)"
| "contains (ItemContainer k) e = (e = ItemContainer k \<or> e = ItemImg k \<or> e = ItemLabel k)"
| "contains Header e = (e = Header \<or> e = HeaderLabel)"
| "contains ItemsSpan e = (e \<noteq> Header \<and> e \<noteq> HeaderLabel)"
| "contains a e = (e = a)"

fun first_index :: "('a \<Rightarrow> bool) \<Rightarrow> 'a list \<Rightarrow> nat option" where
  "first_index P [] = None"
| "first_index P (x # xs) = (if P x then Some 0 else map_option Suc (first_index P xs))"

fun item_elem_of :: "row_element \<Rightarrow> row_element" where
  "item_elem_of (ItemContainer k) = ItemSpan k"
| "item_elem_of (ItemImg k) = ItemContainer k"
| "item_elem_of e = e"

definition get_item_index :: "page \<Rightarrow> nat \<Rightarrow> row_element \<Rightarrow> js_index" where
  "get_item_index p idx elem =
     (if idx < length (rows p) then
        (let n = length (items (rows p ! idx));
             item_list = concat (map (\<lambda>k. [ItemContainer k, ItemImg k]) [0..<n]);
             item_spans = map ItemSpan [0..<n]
         in (case first_index (\<lambda>x. x = elem \<or> contains x elem) item_list of
               Some i \<Rightarrow> Idx (int i)
             | None \<Rightarrow>
                 (case first_index (\<lambda>x. x = item_elem_of elem \<or> contains x elem) item_spans of
                    Some i \<Rightarrow> Idx (int i)
                  | None \<Rightarrow> Null)))
      else Null)"

text \<open>
  The drag state of the page and the listeners that set it, for a drag that starts on an
  item of a row and hovers elements inside a row.
\<close>

record session =
  doc :: page
  dragged_image :: "place option"
  old_item_index :: js_index
  target_item_index :: "droppable \<Rightarrow> js_index"

definition mousedown :: "nat \<Rightarrow> nat \<Rightarrow> session \<Rightarrow> session" where
  "mousedown r k s =
     s\<lparr>dragged_image := Some (InRow r k),
       old_item_index := get_item_index (doc s) r (ItemContainer k)\<rparr>"

definition dragenter :: "nat \<Rightarrow> row_element \<Rightarrow> session \<Rightarrow> session" where
  "dragenter r drag_enter_img s =
     (let target_elem = (case drag_enter_img of ItemLabel k \<Rightarrow> ItemContainer k | e \<Rightarrow> e)
      in s\<lparr>target_item_index :=
              (target_item_index s)(RowElem r := get_item_index (doc s) r target_elem)\<rparr>)"

definition drop_event :: "droppable \<Rightarrow> bool \<Rightarrow> session \<Rightarrow> js_error + session" where
  "drop_event elem on_row s =
     (case on_drop (doc s) (dragged_image s) (old_item_index s) (target_item_index s elem)
             elem on_row of
        Inl e \<Rightarrow> Inl e
      | Inr (p, t) \<Rightarrow> Inr (s\<lparr>doc := p, target_item_index := (target_item_index s)(elem := t)\<rparr>))"

definition end_drag :: "session \<Rightarrow> session" where
  "end_drag s = s\<lparr>dragged_image := None\<rparr>"

text \<open>Every item of the page: those of the rows, row by row, then those of the pool.\<close>

definition page_items :: "page \<Rightarrow> item list" where
  "page_items p = concat (map items (rows p)) @ map pool_item (images p)"

section \<open>Properties of the duplicate-removal utility\<close>

lemma pizza_dups:
  "isDuplicate ''Pizza Hut'' ''Pizza Hut Branch 2''"
  "isDuplicate ''Pizza Hut Branch 2'' ''Pizza Hut''"
  "\<not> isDuplicate ''Pizza Hut'' ''KFC''"
  "\<not> isDuplicate ''Pizza Hut Branch 2'' ''KFC''"
  "\<not> isDuplicate ''KFC'' ''Pizza Hut''"
  "\<not> isDuplicate ''KFC'' ''Pizza Hut Branch 2''"
  "isDuplicate ''  PIZZA hut '' ''Pizza Hut Branch 2''"
  by code_simp+

lemma upt3: "[0..<3] = [0, Suc 0, Suc (Suc 0)]"
  by code_simp

lemma pizza_groups:
  fixes s0 s1 s2 l0 l1 l2
  defines "e0 \<equiv> \<lparr>en_src = s0, en_name = ''Pizza Hut'', en_loc = l0\<rparr>"
    and "e1 \<equiv> \<lparr>en_src = s1, en_name = ''Pizza Hut Branch 2'', en_loc = l1\<rparr>"
    and "e2 \<equiv> \<lparr>en_src = s2, en_name = ''KFC'', en_loc = l2\<rparr>"
  shows "findDuplicateGroups [e0, e1, e2] = [[e0, e1]]"
proof -
  have p1: "scan_pass [e0, e1, e2] [e0] {0} = ([e0, e1], {0, Suc 0}, True)"
    by (simp add: scan_pass_def scan_step_def upt3 pizza_dups e0_def e1_def e2_def insert_commute)
  have p2: "scan_pass [e0, e1, e2] [e0, e1] {0, Suc 0} = ([e0, e1], {0, Suc 0}, False)"
    by (simp add: scan_pass_def scan_step_def upt3 pizza_dups e0_def e1_def e2_def)
  have p3: "scan_pass [e0, e1, e2] [e2] {0, Suc 0, Suc (Suc 0)}
              = ([e2], {0, Suc 0, Suc (Suc 0)}, False)"
    by (simp add: scan_pass_def scan_step_def upt3 pizza_dups e0_def e1_def e2_def)
  have g1: "grow_group [e0, e1, e2] [e0] {0} = ([e0, e1], {0, Suc 0})"
    by (subst grow_group.simps, simp only: p1 prod.case if_True)
       (subst grow_group.simps, simp only: p2 prod.case if_False)
  have g2: "grow_group [e0, e1, e2] [e2] {0, Suc 0, Suc (Suc 0)}
              = ([e2], {0, Suc 0, Suc (Suc 0)})"
    by (subst grow_group.simps, simp only: p3 prod.case if_False)
  have i2: "insert (Suc (Suc 0)) {0, Suc 0} = {0, Suc 0, Suc (Suc 0)}"
    by auto
  show ?thesis
    by (simp add: findDuplicateGroups_def group_step_def upt3 g1 g2 i2)
qed

lemma pizza_collected:
  "collectAllEntries
     \<lparr>fd_title = t, fd_rows = [],
      fd_untiered = Some [ObjEntry s0 (Some ''Pizza Hut''),
                          ObjEntry s1 (Some ''Pizza Hut Branch 2''),
                          ObjEntry s2 (Some ''KFC'')]\<rparr>
   = [\<lparr>en_src = s0, en_name = ''Pizza Hut'', en_loc = Untiered 0\<rparr>,
      \<lparr>en_src = s1, en_name = ''Pizza Hut Branch 2'', en_loc = Untiered 1\<rparr>,
      \<lparr>en_src = s2, en_name = ''KFC'', en_loc = Untiered 2\<rparr>]"
  by (simp add: collectAllEntries_def collect_items_def upt3)

lemma pizza_removed:
  "removeDuplicatesFromTierlist
     \<lparr>fd_title = t, fd_rows = [],
      fd_untiered = Some [ObjEntry s0 (Some ''Pizza Hut''),
                          ObjEntry s1 (Some ''Pizza Hut Branch 2''),
                          ObjEntry s2 (Some ''KFC'')]\<rparr>
     [[\<lparr>en_src = s0, en_name = ''Pizza Hut'', en_loc = Untiered 0\<rparr>,
       \<lparr>en_src = s1, en_name = ''Pizza Hut Branch 2'', en_loc = Untiered 1\<rparr>]]
   = Inr \<lparr>fd_title = t, fd_rows = [],
          fd_untiered = Some [ObjEntry s0 (Some ''Pizza Hut''),
                              ObjEntry s2 (Some ''KFC'')]\<rparr>"
  by (simp add: removeDuplicatesFromTierlist_def group_removals_def remove_marked_def
      splice1_def upt3)

lemmas pizza_removed_Suc = pizza_removed [unfolded One_nat_def]













text \<open>
  Claim C8, amended.  When a run of the utility writes the file, either the backup was
  made and the write is the next thing that happens, or the backup failed, the user
  answered \<open>y\<close> or \<open>yes\<close> to continuing without one, and the write is all that happens.
\<close>

theorem write_after_backup_or_consent:
  assumes "FileWritten d \<in> set (fst (main e))"
  shows "(backup_succeeds e \<and> fst (main e) = [BackupCreated, FileWritten d])
       \<or> (\<not> backup_succeeds e \<and> says_yes (continue_answer e) \<and> fst (main e) = [FileWritten d])"
  using assms
  by (auto simp: main_def process_groups_def Let_def write_cleaned_def split: if_splits sum.splits)

lemma yes_answers: "says_yes ''y''" "says_yes ''Yes ''"
  by code_simp+

lemma pizza_run:
  "main \<lparr>file_exists = True,
         file_parsed = Inr (Object ''Food'' (IsArray [])
                         (IsArray [ObjEntry (Some ''a'') (Some ''Pizza Hut''),
                                   ObjEntry (Some ''b'') (Some ''Pizza Hut Branch 2''),
                                   ObjEntry (Some ''c'') (Some ''KFC'')])),
         skipped_groups = [], approval_answer = ''y'', backup_succeeds = bk,
         continue_answer = ''Yes '', write_succeeds = True\<rparr>
   = ((if bk then [BackupCreated] else [])
        @ [FileWritten \<lparr>fd_title = ''Food'', fd_rows = [],
                        fd_untiered = Some [ObjEntry (Some ''a'') (Some ''Pizza Hut''),
                                            ObjEntry (Some ''c'') (Some ''KFC'')]\<rparr>], Finished)"
  by (simp add: main_def loadJsonFile_def pizza_collected pizza_groups process_groups_def
      yes_answers write_cleaned_def pizza_removed_Suc)

text \<open>
  Claim C8 as stated fails: here copying the file fails, the user chooses to continue, and
  the file is written with no backup made.
\<close>

theorem write_without_backup:
  "main \<lparr>file_exists = True,
         file_parsed = Inr (Object ''Food'' (IsArray [])
                         (IsArray [ObjEntry (Some ''a'') (Some ''Pizza Hut''),
                                   ObjEntry (Some ''b'') (Some ''Pizza Hut Branch 2''),
                                   ObjEntry (Some ''c'') (Some ''KFC'')])),
         skipped_groups = [], approval_answer = ''y'', backup_succeeds = False,
         continue_answer = ''Yes '', write_succeeds = True\<rparr>
   = ([FileWritten \<lparr>fd_title = ''Food'', fd_rows = [],
                    fd_untiered = Some [ObjEntry (Some ''a'') (Some ''Pizza Hut''),
                                        ObjEntry (Some ''c'') (Some ''KFC'')]\<rparr>], Finished)"
  by (simp add: pizza_run)

theorem write_after_backup_or_consent_witness:
  "fst (main \<lparr>file_exists = True,
         file_parsed = Inr (Object ''Food'' (IsArray [])
                         (IsArray [ObjEntry (Some ''a'') (Some ''Pizza Hut''),
                                   ObjEntry (Some ''b'') (Some ''Pizza Hut Branch 2''),
                                   ObjEntry (Some ''c'') (Some ''KFC'')])),
         skipped_groups = [], approval_answer = ''y'', backup_succeeds = True,
         continue_answer = ''n'', write_succeeds = True\<rparr>)
   = [BackupCreated,
      FileWritten \<lparr>fd_title = ''Food'', fd_rows = [],
                   fd_untiered = Some [ObjEntry (Some ''a'') (Some ''Pizza Hut''),
                                       ObjEntry (Some ''c'') (Some ''KFC'')]\<rparr>]"
proof -
  let ?e = "\<lparr>file_exists = True,
         file_parsed = Inr (Object ''Food'' (IsArray [])
                         (IsArray [ObjEntry (Some ''a'') (Some ''Pizza Hut''),
                                   ObjEntry (Some ''b'') (Some ''Pizza Hut Branch 2''),
                                   ObjEntry (Some ''c'') (Some ''KFC'')])),
         skipped_groups = [], approval_answer = ''y'', backup_succeeds = True,
         continue_answer = ''n'', write_succeeds = True\<rparr>"
  let ?d = "\<lparr>fd_title = ''Food'', fd_rows = [],
                   fd_untiered = Some [ObjEntry (Some ''a'') (Some ''Pizza Hut''),
                                       ObjEntry (Some ''c'') (Some ''KFC'')]\<rparr>"
  have "FileWritten ?d \<in> set (fst (main ?e))"
    by (simp add: main_def loadJsonFile_def pizza_collected pizza_groups process_groups_def
      yes_answers write_cleaned_def pizza_removed_Suc)
  from write_after_backup_or_consent [OF this] show ?thesis
    by simp
qed

section \<open>Saving a page and loading it again\<close>

lemma load_items_simps [simp]:
  "load_items [] = []"
  "load_items (e # es) = (case load_item e of None \<Rightarrow> load_items es | Some it \<Rightarrow> it # load_items es)"
  by (simp_all add: load_items_def List.map_filter_simps split: option.split)

lemma load_row_saved:
  assumes "length (rows q) = k"
  shows "load_row css (save_row r, k) q =
           q\<lparr>rows := rows q @ [\<lparr>label = take MAX_NAME_LEN (label r),
                                 background = css (color_hex (background r)),
                                 items = load_items (save_row_imgs (items r))\<rparr>]\<rparr>"
proof -
  have k: "k = length (rows q)"
    using assms by simp
  show ?thesis
    unfolding k
    by (cases "css (color_hex (background r))")
       (simp_all add: load_row_def save_row_def add_row_def set_background_def Let_def)
qed

lemma load_rows_saved:
  "length (rows q) = k \<Longrightarrow>
   fold (load_row css) (zip (map save_row rs) [k..<k + length rs]) q =
     q\<lparr>rows := rows q @ map (\<lambda>r. \<lparr>label = take MAX_NAME_LEN (label r),
                                    background = css (color_hex (background r)),
                                    items = load_items (save_row_imgs (items r))\<rparr>) rs\<rparr>"
proof (induction rs arbitrary: q k)
  case Nil
  then show ?case by simp
next
  case (Cons r rs)
  have z: "zip (map save_row (r # rs)) [k..<k + length (r # rs)]
             = (save_row r, k) # zip (map save_row rs) [Suc k..<Suc k + length rs]"
    by (simp add: upt_conv_Cons del: upt_Suc)
  let ?q1 = "load_row css (save_row r, k) q"
  have l: "length (rows ?q1) = Suc k"
    using Cons.prems by (simp add: load_row_saved)
  have "fold (load_row css) (zip (map save_row (r # rs)) [k..<k + length (r # rs)]) q
          = fold (load_row css) (zip (map save_row rs) [Suc k..<Suc k + length rs]) ?q1"
    by (simp only: z fold.simps comp_apply)
  also have "\<dots> = ?q1\<lparr>rows := rows ?q1 @ map (\<lambda>r. \<lparr>label = take MAX_NAME_LEN (label r),
                                    background = css (color_hex (background r)),
                                    items = load_items (save_row_imgs (items r))\<rparr>) rs\<rparr>"
    by (rule Cons.IH [OF l])
  also have "\<dots> = q\<lparr>rows := rows q @ map (\<lambda>r. \<lparr>label = take MAX_NAME_LEN (label r),
                                    background = css (color_hex (background r)),
                                    items = load_items (save_row_imgs (items r))\<rparr>) (r # rs)\<rparr>"
    by (simp add: load_row_saved [OF Cons.prems])
  finally show ?case .
qed

lemma import_saved:
  "import_input css (Parsed (save_tierlist p)) q =
     (\<lparr>title = title p,
       rows = map (\<lambda>r. \<lparr>label = take MAX_NAME_LEN (label r),
                         background = css (color_hex (background r)),
                         items = load_items (save_row_imgs (items r))\<rparr>) (rows p),
       images = map Bare (load_items (concat (map save_pool_child (images p))))\<rparr>, None)"
proof -
  have k: "length (rows (hard_reset_list q\<lparr>title := title p\<rparr>)) = 0"
    by (simp add: hard_reset_list_def)
  have u: "(case save_untiered (images p) of Some us \<Rightarrow> map Bare (load_items us) | None \<Rightarrow> [])
             = map Bare (load_items (concat (map save_pool_child (images p))))"
    by (cases "images p") (simp_all add: save_untiered_def save_pool_child_def)
  show ?thesis
    using load_rows_saved [OF k, of css "rows p"] u
    by (simp add: load_tierlist_def save_tierlist_def Let_def hard_reset_list_def split: option.splits)
qed

lemma to_hex_small: "n < 16 \<Longrightarrow> to_hex n = [hex_digit n]"
  by (simp add: to_hex.simps)

lemma to_hex_big: "\<not> n < 16 \<Longrightarrow> to_hex n = to_hex (n div 16) @ [hex_digit (n mod 16)]"
  by (subst to_hex.simps) simp

lemmas eval_hex = color_hex_def rgb_to_hex_def to_hex_small to_hex_big hex_digit_def
  hex_byte_def hex_value_def

lemmas eval_trim = js_trim_def is_js_space_def

lemma save_row_imgs_eq: "save_row_imgs its = map save_item its"
  by (cases its) (simp_all add: save_row_imgs_def)

lemma load_saved_items:
  "load_items (map save_item its)
     = map (\<lambda>it. it\<lparr>name := js_trim (name it)\<rparr>) (filter (\<lambda>it. src it \<noteq> []) its)"
  by (induction its) (simp_all add: save_item_def)

lemma load_saved_pool:
  "load_items (concat (map save_pool_child pool))
     = concat (map (\<lambda>c. (if src (pool_item c) \<noteq> []
                           then [(pool_item c)\<lparr>name := js_trim (name (pool_item c))\<rparr>] else [])
                         @ [\<lparr>src = src (pool_item c), name = []\<rparr>]) pool)"
  by (induction pool) (simp_all add: save_item_def save_pool_child_def)

lemma load_saved_items_id:
  assumes "list_all (\<lambda>it. src it \<noteq> [] \<and> js_trim (name it) = name it) its"
  shows "load_items (save_row_imgs its) = its"
proof -
  have f: "filter (\<lambda>it. src it \<noteq> []) its = its"
    using assms by (simp add: list_all_iff)
  have m: "map (\<lambda>it. it\<lparr>name := js_trim (name it)\<rparr>) its = its"
    by (rule map_idI) (use assms in \<open>simp add: list_all_iff\<close>)
  show ?thesis
    by (simp add: save_row_imgs_eq load_saved_items f m)
qed

lemma filter_full: "length (filter P xs) = length xs \<Longrightarrow> filter P xs = xs"
proof (induction xs)
  case Nil
  then show ?case by simp
next
  case (Cons x xs)
  show ?case
  proof (cases "P x")
    case True
    with Cons show ?thesis by simp
  next
    case False
    with Cons.prems length_filter_le [of P xs] show ?thesis by simp
  qed
qed

lemma reloaded_items_same:
  assumes "load_items (save_row_imgs its) = its" and "it \<in> set its"
  shows "js_trim (name it) = name it"
proof -
  let ?f = "\<lambda>it. it\<lparr>name := js_trim (name it)\<rparr>"
  from assms(1) have e: "map ?f (filter (\<lambda>it. src it \<noteq> []) its) = its"
    by (simp add: save_row_imgs_eq load_saved_items)
  have "length (filter (\<lambda>it. src it \<noteq> []) its) = length its"
    using arg_cong [OF e, of length] by simp
  then have "filter (\<lambda>it. src it \<noteq> []) its = its"
    by (rule filter_full)
  with e have "map ?f its = map (\<lambda>it. it) its"
    by simp
  with assms(2) have "?f it = it"
    by (simp only: map_eq_conv)
  then have "name (?f it) = name it"
    by simp
  then show ?thesis
    by simp
qed

lemma reload_pool_Cons:
  "load_items (concat (map save_pool_child (a # cs)))
     = (if src (pool_item a) \<noteq> []
        then [(pool_item a)\<lparr>name := js_trim (name (pool_item a))\<rparr>] else [])
       @ \<lparr>src = src (pool_item a), name = []\<rparr> # load_items (concat (map save_pool_child cs))"
  by (simp add: save_pool_child_def save_item_def)

lemma reloaded_pool_longer:
  "length cs \<le> length (load_items (concat (map save_pool_child cs)))"
proof (induction cs)
  case Nil
  then show ?case by simp
next
  case (Cons a cs)
  then show ?case
    by (simp only: reload_pool_Cons) simp
qed

lemma reloaded_pool_same:
  assumes "map Bare (load_items (concat (map save_pool_child cs))) = cs" and "c \<in> set cs"
  shows "name (pool_item c) = []"
  using assms
proof (induction cs)
  case Nil
  then show ?case by simp
next
  case (Cons a cs)
  let ?rest = "load_items (concat (map save_pool_child cs))"
  show ?case
  proof (cases "src (pool_item a) = []")
    case True
    from Cons.prems(1) True
    have "Bare \<lparr>src = src (pool_item a), name = []\<rparr> # map Bare ?rest = a # cs"
      by (simp only: reload_pool_Cons) simp
    then have a: "a = Bare \<lparr>src = src (pool_item a), name = []\<rparr>" and r: "map Bare ?rest = cs"
      by simp_all
    have "name (pool_item a) = []"
      by (subst a) simp
    with Cons.IH [OF r] Cons.prems(2) show ?thesis
      by auto
  next
    case False
    from Cons.prems(1) False
    have "Bare ((pool_item a)\<lparr>name := js_trim (name (pool_item a))\<rparr>)
            # Bare \<lparr>src = src (pool_item a), name = []\<rparr> # map Bare ?rest = a # cs"
      by (simp only: reload_pool_Cons) simp
    then have "Bare \<lparr>src = src (pool_item a), name = []\<rparr> # map Bare ?rest = cs"
      by simp
    then have "length (Bare \<lparr>src = src (pool_item a), name = []\<rparr> # map Bare ?rest) = length cs"
      by (rule arg_cong)
    then have "Suc (length ?rest) = length cs"
      by simp
    with reloaded_pool_longer [of cs] show ?thesis
      by simp
  qed
qed

lemma js_trim_Nil: "js_trim [] = []"
  by (simp add: js_trim_def)

lemma save_row_imgs_trimmed:
  "re_imgs (save_row r)
     = Some (map (\<lambda>it. ObjEntry (Some (src it)) (Some (js_trim (name it)))) (items r))"
  by (simp add: save_row_def save_row_imgs_eq save_item_def)

lemma save_untiered_trimmed:
  "tj_untiered (save_tierlist p)
     = (if images p = [] then None
        else Some (concat (map (\<lambda>c. [ObjEntry (Some (src (pool_item c)))
                                        (Some (js_trim (name (pool_item c)))),
                                      StrEntry (src (pool_item c))]) (images p))))"
proof -
  have "save_pool_child = (\<lambda>c. [ObjEntry (Some (src (pool_item c)))
                                        (Some (js_trim (name (pool_item c)))),
                                      StrEntry (src (pool_item c))])"
    by (rule ext) (simp add: save_pool_child_def save_item_def)
  then have e: "concat (map save_pool_child (images p))
                  = concat (map (\<lambda>c. [ObjEntry (Some (src (pool_item c)))
                                        (Some (js_trim (name (pool_item c)))),
                                      StrEntry (src (pool_item c))]) (images p))"
    by simp
  show ?thesis
    unfolding save_tierlist_def save_untiered_def e
    by (cases "images p") simp_all
qed

lemma reimport_differs:
  assumes "it \<in> set (page_items p)" and "js_trim (name it) \<noteq> name it"
  shows "fst (import_input css (Parsed (save_tierlist p)) q) \<noteq> p"
proof
  assume "fst (import_input css (Parsed (save_tierlist p)) q) = p"
  then have e: "\<lparr>title = title p,
       rows = map (\<lambda>r. \<lparr>label = take MAX_NAME_LEN (label r),
                         background = css (color_hex (background r)),
                         items = load_items (save_row_imgs (items r))\<rparr>) (rows p),
       images = map Bare (load_items (concat (map save_pool_child (images p))))\<rparr> = p"
    by (simp only: import_saved fst_conv)
  have r: "map (\<lambda>r. \<lparr>label = take MAX_NAME_LEN (label r),
                         background = css (color_hex (background r)),
                         items = load_items (save_row_imgs (items r))\<rparr>) (rows p) = rows p"
    using arg_cong [OF e, of rows] by simp
  have i: "map Bare (load_items (concat (map save_pool_child (images p)))) = images p"
    using arg_cong [OF e, of images] by simp
  from assms(1) consider r0 where "r0 \<in> set (rows p)" "it \<in> set (items r0)"
    | c where "c \<in> set (images p)" "it = pool_item c"
    by (auto simp: page_items_def)
  then show False
  proof cases
    case 1
    from r have "map (\<lambda>r. \<lparr>label = take MAX_NAME_LEN (label r),
                         background = css (color_hex (background r)),
                         items = load_items (save_row_imgs (items r))\<rparr>) (rows p)
                   = map (\<lambda>r. r) (rows p)"
      by simp
    with 1(1) have "\<lparr>label = take MAX_NAME_LEN (label r0),
                         background = css (color_hex (background r0)),
                         items = load_items (save_row_imgs (items r0))\<rparr> = r0"
      by (simp only: map_eq_conv)
    then have "items \<lparr>label = take MAX_NAME_LEN (label r0),
                         background = css (color_hex (background r0)),
                         items = load_items (save_row_imgs (items r0))\<rparr> = items r0"
      by (rule arg_cong)
    then have "load_items (save_row_imgs (items r0)) = items r0"
      by simp
    from reloaded_items_same [OF this 1(2)] assms(2) show False
      by simp
  next
    case 2
    from reloaded_pool_same [OF i 2(1)] 2(2) assms(2) show False
      by (simp add: js_trim_Nil)
  qed
qed

lemma reimport_row_holds:
  assumes "i < length (rows p)" and "it \<in> set (items (rows p ! i))" and "src it \<noteq> []"
  shows "it\<lparr>name := js_trim (name it)\<rparr>
           \<in> set (items (rows (fst (import_input css (Parsed (save_tierlist p)) q)) ! i))"
  using assms
  by (simp add: import_saved save_row_imgs_eq load_saved_items del: import_input.simps)

lemma reimport_pool_holds:
  assumes "c \<in> set (images p)" and "src (pool_item c) \<noteq> []"
  shows "Bare ((pool_item c)\<lparr>name := js_trim (name (pool_item c))\<rparr>)
           \<in> set (images (fst (import_input css (Parsed (save_tierlist p)) q)))"
proof -
  have "(pool_item c)\<lparr>name := js_trim (name (pool_item c))\<rparr>
          \<in> set (load_items (concat (map save_pool_child (images p))))"
    unfolding load_saved_pool using assms by (auto intro!: bexI [of _ c])
  then show ?thesis
    by (simp add: import_saved del: import_input.simps)
qed

lemma or_push_bit_low:
  assumes "x < 2 ^ n"
  shows "or (push_bit n a) x = push_bit n a + (x::nat)"
proof -
  from assms have tx: "take_bit n x = x"
    by (rule take_bit_nat_eq_self)
  have "and (push_bit n a) (take_bit n x) = 0"
    by (rule bit_eqI) (simp add: bit_simps)
  with tx have "and (push_bit n a) x = 0"
    by simp
  then show ?thesis
    by (rule disjunctive_add_eq_or [symmetric])
qed

lemma to_hex_step: "0 < n \<Longrightarrow> d < 16 \<Longrightarrow> to_hex (n * 16 + d) = to_hex n @ [hex_digit d]"
  by (subst to_hex.simps) simp

lemma hex_value_digit: "d < 16 \<Longrightarrow> hex_value (hex_digit d) = Some d"
  by (simp add: eval_nat_numeral less_Suc_eq; elim disjE; simp add: hex_digit_def hex_value_def)

lemma hex_byte_digits:
  assumes "x < 256"
  shows "hex_byte (hex_digit (x div 16)) (hex_digit (x mod 16)) = Some (of_nat x)"
proof -
  from assms have "x div 16 < 16"
    by simp
  then show ?thesis
    by (simp add: hex_byte_def hex_value_digit)
qed

lemma rgb_to_hex_digits:
  assumes "r < 256" and "g < 256" and "b < 256"
  shows "rgb_to_hex r g b
           = [CHR ''#'', hex_digit (r div 16), hex_digit (r mod 16), hex_digit (g div 16),
              hex_digit (g mod 16), hex_digit (b div 16), hex_digit (b mod 16)]"
proof -
  have 1: "or (push_bit 8 g) b = g * 256 + b"
    using or_push_bit_low [of b 8 g] assms(3) by (simp add: push_bit_eq_mult)
  have 2: "or (push_bit 16 r) (g * 256 + b) = r * 65536 + g * 256 + b"
    using or_push_bit_low [of "g * 256 + b" 16 r] assms(2,3) by (simp add: push_bit_eq_mult)
  have 3: "or (push_bit 24 1) (r * 65536 + g * 256 + b) = 16777216 + r * 65536 + g * 256 + b"
    using or_push_bit_low [of "r * 65536 + g * 256 + b" 24 1] assms
    by (simp add: push_bit_eq_mult)
  have v: "16777216 + r * 65536 + g * 256 + b
     = (((((1 * 16 + r div 16) * 16 + r mod 16) * 16 + g div 16) * 16 + g mod 16) * 16
          + b div 16) * 16 + b mod 16"
    by (simp add: algebra_simps)
  have "to_hex (16777216 + r * 65536 + g * 256 + b)
          = to_hex 1 @ [hex_digit (r div 16), hex_digit (r mod 16), hex_digit (g div 16),
              hex_digit (g mod 16), hex_digit (b div 16), hex_digit (b mod 16)]"
  proof -
    let ?n1 = "1 * 16 + r div 16"
    let ?n2 = "?n1 * 16 + r mod 16"
    let ?n3 = "?n2 * 16 + g div 16"
    let ?n4 = "?n3 * 16 + g mod 16"
    let ?n5 = "?n4 * 16 + b div 16"
    have d: "r div 16 < 16" "g div 16 < 16" "b div 16 < 16"
      using assms by simp_all
    have s1: "to_hex ?n1 = to_hex 1 @ [hex_digit (r div 16)]"
      by (rule to_hex_step) (simp_all add: d)
    have s2: "to_hex ?n2 = to_hex ?n1 @ [hex_digit (r mod 16)]"
      by (rule to_hex_step) simp_all
    have s3: "to_hex ?n3 = to_hex ?n2 @ [hex_digit (g div 16)]"
      by (rule to_hex_step) (simp_all add: d)
    have s4: "to_hex ?n4 = to_hex ?n3 @ [hex_digit (g mod 16)]"
      by (rule to_hex_step) simp_all
    have s5: "to_hex ?n5 = to_hex ?n4 @ [hex_digit (b div 16)]"
      by (rule to_hex_step) (simp_all add: d)
    have s6: "to_hex (?n5 * 16 + b mod 16) = to_hex ?n5 @ [hex_digit (b mod 16)]"
      by (rule to_hex_step) simp_all
    show ?thesis
      by (simp only: v s6 s5 s4 s3 s2 s1 append_assoc append.simps)
  qed
  moreover have "or (push_bit 24 1) (or (push_bit 16 r) (or (push_bit 8 g) b))
                   = 16777216 + r * 65536 + g * 256 + b"
    by (simp only: 1 2 3)
  ultimately have "rgb_to_hex r g b
           = CHR ''#'' # drop 1 (to_hex 1 @ [hex_digit (r div 16), hex_digit (r mod 16),
               hex_digit (g div 16), hex_digit (g mod 16), hex_digit (b div 16),
               hex_digit (b mod 16)])"
    by (simp only: rgb_to_hex_def)
  then show ?thesis
    by (simp add: to_hex_small)
qed

text \<open>
  The browser that reads six-digit hexadecimal colours reads back every colour that saving
  writes for a header whose background is set.
\<close>

lemma hex_color_reads_back: "hex_color (color_hex (Some c)) = Some c"
proof -
  obtain r g b where c: "c = (r, g, b)"
    by (cases c) auto
  have l: "unat r < 256" "unat g < 256" "unat b < 256"
    using unsigned_less [of r] unsigned_less [of g] unsigned_less [of b] by simp_all
  show ?thesis
    unfolding c color_hex_def
    by (simp add: rgb_to_hex_digits [OF l] hex_byte_digits l)
qed

text \<open>
  Claim C3, amended.  A page whose untiered pool is empty, whose items have a non-empty
  \<open>src\<close> and a name without white space at either end, whose row labels have at most 200
  characters and whose header colours the browser reads back from their hexadecimal form:
  saving it and importing the result gives the same page, whatever page the import
  replaces.
\<close>

theorem roundtrip_rows:
  assumes "images p = []"
    and "list_all (\<lambda>r. length (label r) \<le> MAX_NAME_LEN
                        \<and> css (color_hex (background r)) = background r
                        \<and> list_all (\<lambda>it. src it \<noteq> [] \<and> js_trim (name it) = name it) (items r))
           (rows p)"
  shows "import_input css (Parsed (save_tierlist p)) q = (p, None)"
proof -
  have "map (\<lambda>r. \<lparr>label = take MAX_NAME_LEN (label r),
                   background = css (color_hex (background r)),
                   items = load_items (save_row_imgs (items r))\<rparr>) (rows p) = rows p"
    by (rule map_idI) (use assms(2) in \<open>simp add: list_all_iff load_saved_items_id\<close>)
  then have "import_input css (Parsed (save_tierlist p)) q
               = (\<lparr>title = title p, rows = rows p, images = images p\<rparr>, None)"
    using assms(1) by (simp only: import_saved) simp
  then show ?thesis
    by simp
qed

theorem roundtrip_rows_witness:
  "import_input hex_color
     (Parsed (save_tierlist
        \<lparr>title = ''Food'',
         rows = [\<lparr>label = ''S'', background = Some (255, 102, 102),
                  items = [\<lparr>src = ''data:image/png;base64,AAAA'', name = ''Pizza Hut''\<rparr>]\<rparr>,
                 \<lparr>label = ''A'', background = Some (240, 167, 49), items = []\<rparr>],
         images = []\<rparr>))
     \<lparr>title = ''Old'', rows = [], images = [Bare \<lparr>src = ''x'', name = ''y''\<rparr>]\<rparr>
   = (\<lparr>title = ''Food'',
       rows = [\<lparr>label = ''S'', background = Some (255, 102, 102),
                items = [\<lparr>src = ''data:image/png;base64,AAAA'', name = ''Pizza Hut''\<rparr>]\<rparr>,
               \<lparr>label = ''A'', background = Some (240, 167, 49), items = []\<rparr>],
       images = []\<rparr>, None)"
  by (rule roundtrip_rows) (simp_all add: eval_hex eval_trim MAX_NAME_LEN_def)

text \<open>
  Claim C3 as stated fails: every item of this page is in the object form, yet the page
  that comes back holds \<open>Pizza Hut\<close> without the space that ended the name.
\<close>

theorem roundtrip_counterexample:
  "fst (import_input hex_color
     (Parsed (save_tierlist
        \<lparr>title = ''Food'',
         rows = [\<lparr>label = ''S'', background = Some (255, 102, 102),
                  items = [\<lparr>src = ''data:image/png;base64,AAAA'', name = ''Pizza Hut ''\<rparr>]\<rparr>],
         images = []\<rparr>))
     \<lparr>title = ''Food'',
      rows = [\<lparr>label = ''S'', background = Some (255, 102, 102),
               items = [\<lparr>src = ''data:image/png;base64,AAAA'', name = ''Pizza Hut ''\<rparr>]\<rparr>],
      images = []\<rparr>)
   \<noteq> \<lparr>title = ''Food'',
       rows = [\<lparr>label = ''S'', background = Some (255, 102, 102),
                items = [\<lparr>src = ''data:image/png;base64,AAAA'', name = ''Pizza Hut ''\<rparr>]\<rparr>],
       images = []\<rparr>"
  by (simp add: import_saved save_row_imgs_eq load_saved_items eval_trim del: import_input.simps)

text \<open>
  A bare string that is not empty is loaded as the object form with that \<open>src\<close> and the name
  \<open>""\<close> is; an item loaded from a bare string is saved, in a row, as an object with the
  name \<open>""\<close>.  (The empty string gives an item as a bare string and is skipped as the \<open>src\<close>
  of an object.)
\<close>

lemma legacy_string_as_object:
  "s \<noteq> [] \<Longrightarrow> load_item (StrEntry s) = load_item (ObjEntry (Some s) (Some []))"
  by simp

lemma legacy_row_resaved:
  "save_row_imgs (load_items [StrEntry s]) = [ObjEntry (Some s) (Some [])]"
  by (simp add: save_row_imgs_def save_item_def js_trim_Nil)

text \<open>An item that a load creates has a non-empty \<open>src\<close> or an empty name.\<close>

lemma loaded_item_src:
  "load_item e = Some it \<Longrightarrow> src it \<noteq> [] \<or> name it = []"
  by (cases e rule: load_item.cases) (auto split: if_splits)

text \<open>
  Claim C4 at a file with one legacy entry in \<open>untiered\<close>: the entry is loaded as an item
  with an empty name, and saving the page writes that item twice, as an object with the
  name \<open>""\<close> and, after it, as the bare string again.
\<close>

theorem legacy_untiered_resaved:
  "tj_untiered (save_tierlist (fst (import_input css
      (Parsed \<lparr>tj_title = t, tj_rows = Some [], tj_untiered = Some [StrEntry s]\<rparr>) q)))
   = Some [ObjEntry (Some s) (Some []), StrEntry s]"
  by (simp add: load_tierlist_def hard_reset_list_def save_tierlist_def save_untiered_def
      save_pool_child_def save_item_def js_trim_Nil)

text \<open>
  Claim C10.  Every object that saving writes for an item, of a row or of the pool, carries
  the item's name trimmed.  So a page holding an item whose name changes under trimming
  does not come back from saving and importing; and the page that comes back holds every
  item that has a non-empty \<open>src\<close> with its trimmed name, in the same row, or in the pool.
\<close>

theorem saved_names_trimmed:
  "re_imgs (save_row r)
     = Some (map (\<lambda>it. ObjEntry (Some (src it)) (Some (js_trim (name it)))) (items r))
   \<and> tj_rows (save_tierlist p) = Some (map save_row (rows p))
   \<and> tj_untiered (save_tierlist p)
       = (if images p = [] then None
          else Some (concat (map (\<lambda>c. [ObjEntry (Some (src (pool_item c)))
                                          (Some (js_trim (name (pool_item c)))),
                                        StrEntry (src (pool_item c))]) (images p))))
   \<and> (\<forall>it. it \<in> set (page_items p) \<and> js_trim (name it) \<noteq> name it
          \<longrightarrow> fst (import_input css (Parsed (save_tierlist p)) q) \<noteq> p)
   \<and> (\<forall>i it. i < length (rows p) \<and> it \<in> set (items (rows p ! i)) \<and> src it \<noteq> []
          \<longrightarrow> it\<lparr>name := js_trim (name it)\<rparr>
                \<in> set (items (rows (fst (import_input css (Parsed (save_tierlist p)) q)) ! i)))
   \<and> (\<forall>c. c \<in> set (images p) \<and> src (pool_item c) \<noteq> []
          \<longrightarrow> Bare ((pool_item c)\<lparr>name := js_trim (name (pool_item c))\<rparr>)
                \<in> set (images (fst (import_input css (Parsed (save_tierlist p)) q))))"
proof (intro conjI allI impI)
  show "re_imgs (save_row r)
     = Some (map (\<lambda>it. ObjEntry (Some (src it)) (Some (js_trim (name it)))) (items r))"
    by (rule save_row_imgs_trimmed)
  show "tj_rows (save_tierlist p) = Some (map save_row (rows p))"
    by (simp add: save_tierlist_def)
  show "tj_untiered (save_tierlist p)
       = (if images p = [] then None
          else Some (concat (map (\<lambda>c. [ObjEntry (Some (src (pool_item c)))
                                          (Some (js_trim (name (pool_item c)))),
                                        StrEntry (src (pool_item c))]) (images p))))"
    by (rule save_untiered_trimmed)
next
  fix it
  assume "it \<in> set (page_items p) \<and> js_trim (name it) \<noteq> name it"
  then show "fst (import_input css (Parsed (save_tierlist p)) q) \<noteq> p"
    using reimport_differs [of it p css q] by blast
next
  fix i it
  assume "i < length (rows p) \<and> it \<in> set (items (rows p ! i)) \<and> src it \<noteq> []"
  then show "it\<lparr>name := js_trim (name it)\<rparr>
                \<in> set (items (rows (fst (import_input css (Parsed (save_tierlist p)) q)) ! i))"
    using reimport_row_holds [of i p it css q] by blast
next
  fix c
  assume "c \<in> set (images p) \<and> src (pool_item c) \<noteq> []"
  then show "Bare ((pool_item c)\<lparr>name := js_trim (name (pool_item c))\<rparr>)
                \<in> set (images (fst (import_input css (Parsed (save_tierlist p)) q)))"
    using reimport_pool_holds [of c p css q] by blast
qed

theorem saved_names_trimmed_witness:
  "fst (import_input hex_color
          (Parsed (save_tierlist
             \<lparr>title = ''Food'',
              rows = [\<lparr>label = ''S'', background = Some (255, 102, 102),
                       items = [\<lparr>src = ''data:image/png;base64,AAAA'', name = '' KFC ''\<rparr>]\<rparr>],
              images = [Bare \<lparr>src = ''data:image/png;base64,BBBB'', name = ''Pizza Hut ''\<rparr>]\<rparr>))
          \<lparr>title = ''Old'', rows = [], images = []\<rparr>)
     \<noteq> \<lparr>title = ''Food'',
         rows = [\<lparr>label = ''S'', background = Some (255, 102, 102),
                  items = [\<lparr>src = ''data:image/png;base64,AAAA'', name = '' KFC ''\<rparr>]\<rparr>],
         images = [Bare \<lparr>src = ''data:image/png;base64,BBBB'', name = ''Pizza Hut ''\<rparr>]\<rparr>
   \<and> \<lparr>src = ''data:image/png;base64,AAAA'', name = ''KFC''\<rparr>
       \<in> set (items (rows (fst (import_input hex_color
          (Parsed (save_tierlist
             \<lparr>title = ''Food'',
              rows = [\<lparr>label = ''S'', background = Some (255, 102, 102),
                       items = [\<lparr>src = ''data:image/png;base64,AAAA'', name = '' KFC ''\<rparr>]\<rparr>],
              images = [Bare \<lparr>src = ''data:image/png;base64,BBBB'', name = ''Pizza Hut ''\<rparr>]\<rparr>))
          \<lparr>title = ''Old'', rows = [], images = []\<rparr>)) ! 0))
   \<and> Bare \<lparr>src = ''data:image/png;base64,BBBB'', name = ''Pizza Hut''\<rparr>
       \<in> set (images (fst (import_input hex_color
          (Parsed (save_tierlist
             \<lparr>title = ''Food'',
              rows = [\<lparr>label = ''S'', background = Some (255, 102, 102),
                       items = [\<lparr>src = ''data:image/png;base64,AAAA'', name = '' KFC ''\<rparr>]\<rparr>],
              images = [Bare \<lparr>src = ''data:image/png;base64,BBBB'', name = ''Pizza Hut ''\<rparr>]\<rparr>))
          \<lparr>title = ''Old'', rows = [], images = []\<rparr>)))"
proof -
  let ?a = "\<lparr>src = ''data:image/png;base64,AAAA'', name = '' KFC ''\<rparr>"
  let ?b = "\<lparr>src = ''data:image/png;base64,BBBB'', name = ''Pizza Hut ''\<rparr>"
  let ?p = "\<lparr>title = ''Food'',
              rows = [\<lparr>label = ''S'', background = Some (255, 102, 102), items = [?a]\<rparr>],
              images = [Bare ?b]\<rparr>"
  let ?q = "\<lparr>title = ''Old'', rows = [], images = []\<rparr>"
  note t = saved_names_trimmed [of "\<lparr>label = ''S'', background = Some (255, 102, 102), items = [?a]\<rparr>" ?p hex_color ?q]
  have ta: "js_trim '' KFC '' = ''KFC''" and tb: "js_trim ''Pizza Hut '' = ''Pizza Hut''"
    by (simp_all add: eval_trim)
  have 1: "?a \<in> set (page_items ?p) \<and> js_trim (name ?a) \<noteq> name ?a"
    by (simp add: page_items_def ta)
  have 2: "0 < length (rows ?p) \<and> ?a \<in> set (items (rows ?p ! 0)) \<and> src ?a \<noteq> []"
    by simp
  have 3: "Bare ?b \<in> set (images ?p) \<and> src (pool_item (Bare ?b)) \<noteq> []"
    by simp
  from t 1 have c1: "fst (import_input hex_color (Parsed (save_tierlist ?p)) ?q) \<noteq> ?p"
    by blast
  from t 2 have c2: "?a\<lparr>name := js_trim (name ?a)\<rparr>
      \<in> set (items (rows (fst (import_input hex_color (Parsed (save_tierlist ?p)) ?q)) ! 0))"
    by blast
  from t 3 have c3: "Bare ((pool_item (Bare ?b))\<lparr>name := js_trim (name (pool_item (Bare ?b)))\<rparr>)
      \<in> set (images (fst (import_input hex_color (Parsed (save_tierlist ?p)) ?q)))"
    by blast
  from c2 ta have c2': "\<lparr>src = ''data:image/png;base64,AAAA'', name = ''KFC''\<rparr>
      \<in> set (items (rows (fst (import_input hex_color (Parsed (save_tierlist ?p)) ?q)) ! 0))"
    by simp
  from c3 tb have c3': "Bare \<lparr>src = ''data:image/png;base64,BBBB'', name = ''Pizza Hut''\<rparr>
      \<in> set (images (fst (import_input hex_color (Parsed (save_tierlist ?p)) ?q)))"
    by simp
  from c1 c2' c3' show ?thesis
    by (intro conjI)
qed



section \<open>Rows\<close>

lemma page_items_rm_row:
  assumes "idx < length (rows p)"
  shows "mset (concat (map items (splice1 idx ((rows p)[idx := (rows p ! idx)\<lparr>items := []\<rparr>])))
               @ map pool_item (images p @ map Bare (items (rows p ! idx))))
         = mset (page_items p)"
proof -
  let ?rs = "rows p"
  have s: "splice1 idx (?rs[idx := (?rs ! idx)\<lparr>items := []\<rparr>]) = take idx ?rs @ drop (Suc idx) ?rs"
    by (simp add: splice1_def)
  have "?rs = take idx ?rs @ ?rs ! idx # drop (Suc idx) ?rs"
    using assms by (rule id_take_nth_drop)
  then have "concat (map items ?rs)
      = concat (map items (take idx ?rs)) @ items (?rs ! idx) @ concat (map items (drop (Suc idx) ?rs))"
    by (metis concat.simps(2) concat_append list.simps(9) map_append)
  then show ?thesis
    unfolding s page_items_def by (simp add: comp_def)
qed

text \<open>
  Claim C7.  Removing the row at a position the page has succeeds; the pool is the old
  pool followed by the items of that row in their order, so it is longer by their number;
  the other rows stay, in their order, so there is one row less; and the items of the page
  are the same as before, each as often as before.
\<close>

theorem rm_row_keeps_items:
  assumes "idx < length (rows p)"
  shows "\<exists>q. rm_row idx p = Inr q
           \<and> images q = images p @ map Bare (items (rows p ! idx))
           \<and> length (images q) = length (images p) + length (items (rows p ! idx))
           \<and> rows q = take idx (rows p) @ drop (Suc idx) (rows p)
           \<and> Suc (length (rows q)) = length (rows p)
           \<and> mset (page_items q) = mset (page_items p)"
proof -
  let ?q = "p\<lparr>rows := splice1 idx ((rows p)[idx := (rows p ! idx)\<lparr>items := []\<rparr>]),
             images := images p @ map Bare (items (rows p ! idx))\<rparr>"
  have r: "rm_row idx p = Inr ?q"
    using assms by (simp add: rm_row_def reset_row_def)
  have s: "rows ?q = take idx (rows p) @ drop (Suc idx) (rows p)"
    by (simp add: splice1_def)
  have l: "Suc (length (rows ?q)) = length (rows p)"
    unfolding s using assms by simp
  have m: "mset (page_items ?q) = mset (page_items p)"
    using page_items_rm_row [OF assms] by (simp add: page_items_def)
  from r s l m show ?thesis
    by (intro exI [of _ ?q]) simp
qed

theorem rm_row_keeps_items_witness:
  "rm_row 1
     \<lparr>title = ''Food'',
      rows = [\<lparr>label = ''S'', background = None, items = [\<lparr>src = ''a'', name = ''A''\<rparr>]\<rparr>,
              \<lparr>label = ''A'', background = None,
               items = [\<lparr>src = ''b'', name = ''B''\<rparr>, \<lparr>src = ''c'', name = ''C''\<rparr>]\<rparr>],
      images = [Bare \<lparr>src = ''d'', name = ''D''\<rparr>]\<rparr>
   = Inr \<lparr>title = ''Food'',
          rows = [\<lparr>label = ''S'', background = None, items = [\<lparr>src = ''a'', name = ''A''\<rparr>]\<rparr>],
          images = [Bare \<lparr>src = ''d'', name = ''D''\<rparr>, Bare \<lparr>src = ''b'', name = ''B''\<rparr>,
                    Bare \<lparr>src = ''c'', name = ''C''\<rparr>]\<rparr>"
proof -
  let ?p = "\<lparr>title = ''Food'',
      rows = [\<lparr>label = ''S'', background = None, items = [\<lparr>src = ''a'', name = ''A''\<rparr>]\<rparr>,
              \<lparr>label = ''A'', background = None,
               items = [\<lparr>src = ''b'', name = ''B''\<rparr>, \<lparr>src = ''c'', name = ''C''\<rparr>]\<rparr>],
      images = [Bare \<lparr>src = ''d'', name = ''D''\<rparr>]\<rparr>"
  have "1 < length (rows ?p)"
    by simp
  from rm_row_keeps_items [OF this] obtain q where
    q: "rm_row 1 ?p = Inr q" "images q = images ?p @ map Bare (items (rows ?p ! 1))"
       "rows q = take 1 (rows ?p) @ drop (Suc 1) (rows ?p)"
    by blast
  have "title q = ''Food''"
    using q(1) by (auto simp: rm_row_def reset_row_def)
  with q(2,3) have "q = \<lparr>title = ''Food'',
          rows = [\<lparr>label = ''S'', background = None, items = [\<lparr>src = ''a'', name = ''A''\<rparr>]\<rparr>],
          images = [Bare \<lparr>src = ''d'', name = ''D''\<rparr>, Bare \<lparr>src = ''b'', name = ''B''\<rparr>,
                    Bare \<lparr>src = ''c'', name = ''C''\<rparr>]\<rparr>"
    by (cases q) simp
  with q(1) show ?thesis
    by simp
qed

lemma length_after_add: "length (rows (after_add css i p)) = length (rows p)"
  by (simp add: after_add_def recompute_header_colors_def)

lemma length_add_row: "length (rows (add_row i nm p)) = Suc (length (rows p))"
  by (simp add: add_row_def)

lemma length_rm_row:
  "i < length (rows p) \<Longrightarrow> \<exists>q. rm_row i p = Inr q \<and> Suc (length (rows q)) = length (rows p)"
  by (simp add: rm_row_def reset_row_def splice1_def)

lemma click_keeps_a_row:
  assumes "rows p \<noteq> []"
  shows "rows (click_handler css c p) \<noteq> []"
proof (cases c)
  case (PlusUp r)
  have "length (rows (after_add css r (add_row r [] p))) \<noteq> 0"
    by (simp only: length_after_add length_add_row)
  with assms PlusUp show ?thesis
    by simp
next
  case (PlusDown r nm)
  have "length (rows (after_add css (Suc r) (add_row (Suc r) nm p))) \<noteq> 0"
    by (simp only: length_after_add length_add_row)
  with assms PlusDown show ?thesis
    by simp
next
  case (Remove r confirmed)
  show ?thesis
  proof (cases "r < length (rows p) \<and> \<not> length (rows p) < 2 \<and> (items (rows p ! r) = [] \<or> confirmed)")
    case True
    then obtain q where q: "rm_row r p = Inr q" "Suc (length (rows q)) = length (rows p)"
      using length_rm_row [of r p] by blast
    from True q(2) have "rows q \<noteq> []"
      by auto
    with True q(1) Remove show ?thesis
      by simp
  next
    case False
    with assms Remove show ?thesis
      by auto
  qed
qed

lemma clicks_keep_a_row:
  "rows p \<noteq> [] \<Longrightarrow> rows (fold (click_handler css) cs p) \<noteq> []"
proof (induction cs arbitrary: p)
  case Nil
  then show ?case by simp
next
  case (Cons c cs)
  from Cons.prems have "rows (click_handler css c p) \<noteq> []"
    by (rule click_keeps_a_row)
  then have "rows (fold (click_handler css) cs (click_handler css c p)) \<noteq> []"
    by (rule Cons.IH)
  then show ?case
    by simp
qed

lemma default_page_rows: "length (rows (default_page css t)) = 7"
  by (simp add: default_page_def recompute_all_header_colors_def DEFAULT_TIERS_def add_row_def
      upt_rec [of 0 7] upt_rec [of 1 7] upt_rec [of 2 7] upt_rec [of 3 7] upt_rec [of 4 7]
      upt_rec [of 5 7] upt_rec [of 6 7])

text \<open>
  Claim C9.  The remove button does nothing while the page has fewer than two rows, so
  whatever buttons of rows are clicked, starting from the seven default tiers, the page
  keeps at least one row.
\<close>

theorem at_least_one_row:
  "(length (rows p) < 2 \<longrightarrow> click_handler css (Remove r confirmed) p = p)
   \<and> 1 \<le> length (rows (fold (click_handler css) clicks (default_page css t)))"
proof
  show "length (rows p) < 2 \<longrightarrow> click_handler css (Remove r confirmed) p = p"
    by simp
  have "rows (default_page css t) \<noteq> []"
    using default_page_rows [of css t] by auto
  then have "rows (fold (click_handler css) clicks (default_page css t)) \<noteq> []"
    by (rule clicks_keep_a_row)
  then show "1 \<le> length (rows (fold (click_handler css) clicks (default_page css t)))"
    by (cases "rows (fold (click_handler css) clicks (default_page css t))") simp_all
qed

theorem at_least_one_row_witness:
  "click_handler hex_color (Remove 0 True)
     \<lparr>title = ''Food'', rows = [\<lparr>label = ''S'', background = None, items = []\<rparr>], images = []\<rparr>
   = \<lparr>title = ''Food'', rows = [\<lparr>label = ''S'', background = None, items = []\<rparr>], images = []\<rparr>
   \<and> 1 \<le> length (rows (fold (click_handler hex_color)
                 [Remove 0 True, Remove 0 True, Remove 0 True, Remove 0 True, Remove 0 True,
                  Remove 0 True, Remove 0 True, Remove 0 True, PlusUp 0, Remove 1 False]
                 (default_page hex_color ''Food'')))"
  using at_least_one_row
    [of "\<lparr>title = ''Food'', rows = [\<lparr>label = ''S'', background = None, items = []\<rparr>], images = []\<rparr>"
        hex_color 0 True
        "[Remove 0 True, Remove 0 True, Remove 0 True, Remove 0 True, Remove 0 True,
          Remove 0 True, Remove 0 True, Remove 0 True, PlusUp 0, Remove 1 False]" "''Food''"]
  by (simp del: click_handler.simps fold_simps)

section \<open>Dropping an item\<close>

text \<open>
  Claim C1, amended.  The grabbed item is taken out of its place and put into the
  destination at the index the listener arrives at.  That index is the raw destination
  index less one exactly when the source index is less than the raw destination index and
  the grabbed item sat in a \<open>span.item\<close> of the destination: in the row that is dropped on,
  or in the pool, dropped on the pool, after an earlier drop had wrapped it there.
  Otherwise it is the raw destination index; so it is for an item that lies bare in the
  pool, also when it is dropped on the pool.
\<close>

theorem drop_index_adjustment:
  assumes "detach p pl = Inr (it, p1, old_item_row)"
    and "attach p1 elem on_row
           (Idx (if (case pl of InRow i k \<Rightarrow> elem = RowElem i
                            | InPool k \<Rightarrow> elem = ImagesElem \<and> images p ! k = Wrapped it)
                    \<and> m < n
                 then n - 1 else n)) it = Inr p2"
  shows "on_drop p (Some pl) (Idx m) (Idx n) elem on_row
           = Inr (p2, Idx (if (case pl of InRow i k \<Rightarrow> elem = RowElem i
                                    | InPool k \<Rightarrow> elem = ImagesElem \<and> images p ! k = Wrapped it)
                              \<and> m < n
                           then n - 1 else n))"
proof -
  have same: "(Some (items_container_parent elem) = old_item_row)
                = (case pl of InRow i k \<Rightarrow> elem = RowElem i
                            | InPool k \<Rightarrow> elem = ImagesElem \<and> images p ! k = Wrapped it)"
  proof (cases pl)
    case (InRow i k)
    with assms(1) show ?thesis
      by (cases elem) (auto split: if_splits)
  next
    case (InPool k)
    with assms(1) show ?thesis
      by (cases elem; cases "images p ! k") (auto split: if_splits)
  qed
  show ?thesis
  proof (cases "Some (items_container_parent elem) = old_item_row \<and> m < n")
    case True
    with same assms(2) have "attach p1 elem on_row (Idx (n - 1)) it = Inr p2"
      by simp
    with True same assms(1) show ?thesis
      by (simp add: on_drop_def js_less_def minus_one_def)
  next
    case False
    with same assms(2) have "attach p1 elem on_row (Idx n) it = Inr p2"
      by auto
    with False same assms(1) show ?thesis
      by (auto simp: on_drop_def js_less_def)
  qed
qed

theorem drop_index_adjustment_witness:
  "on_drop
     \<lparr>title = ''Food'',
      rows = [\<lparr>label = ''S'', background = None,
               items = [\<lparr>src = ''a'', name = ''A''\<rparr>, \<lparr>src = ''b'', name = ''B''\<rparr>,
                        \<lparr>src = ''c'', name = ''C''\<rparr>, \<lparr>src = ''d'', name = ''D''\<rparr>]\<rparr>],
      images = []\<rparr>
     (Some (InRow 0 1)) (Idx 1) (Idx 3) (RowElem 0) False
   = Inr (\<lparr>title = ''Food'',
           rows = [\<lparr>label = ''S'', background = None,
                    items = [\<lparr>src = ''a'', name = ''A''\<rparr>, \<lparr>src = ''c'', name = ''C''\<rparr>,
                             \<lparr>src = ''b'', name = ''B''\<rparr>, \<lparr>src = ''d'', name = ''D''\<rparr>]\<rparr>],
           images = []\<rparr>, Idx 2)"
proof -
  let ?A = "\<lparr>src = ''a'', name = ''A''\<rparr>" and ?B = "\<lparr>src = ''b'', name = ''B''\<rparr>"
  let ?C = "\<lparr>src = ''c'', name = ''C''\<rparr>" and ?D = "\<lparr>src = ''d'', name = ''D''\<rparr>"
  let ?p = "\<lparr>title = ''Food'',
      rows = [\<lparr>label = ''S'', background = None, items = [?A, ?B, ?C, ?D]\<rparr>], images = []\<rparr>"
  let ?p1 = "\<lparr>title = ''Food'',
      rows = [\<lparr>label = ''S'', background = None, items = [?A, ?C, ?D]\<rparr>], images = []\<rparr>"
  let ?p2 = "\<lparr>title = ''Food'',
      rows = [\<lparr>label = ''S'', background = None, items = [?A, ?C, ?B, ?D]\<rparr>], images = []\<rparr>"
  have d: "detach ?p (InRow 0 1) = Inr (?B, ?p1, Some (RowDiv 0))"
    by (simp add: splice1_def)
  have a: "attach ?p1 (RowElem 0) False
           (Idx (if (case InRow 0 1 of InRow i k \<Rightarrow> RowElem 0 = RowElem i
                            | InPool k \<Rightarrow> RowElem 0 = ImagesElem \<and> images ?p ! k = Wrapped ?B)
                    \<and> (1::int) < 3 then 3 - 1 else 3)) ?B = Inr ?p2"
    by (simp add: insertBefore_def)
  from drop_index_adjustment [OF d a] show ?thesis
    by simp
qed

text \<open>
  Claim C1 as stated fails: the item grabbed and the item hovered lie in the same
  container, the pool, the source index 0 is less than the raw destination index 2, and
  the item is inserted at index 2, not 1: after \<open>C\<close>, not before it.
\<close>

theorem pool_drop_counterexample:
  "on_drop
     \<lparr>title = ''Food'', rows = [],
      images = [Bare \<lparr>src = ''a'', name = ''A''\<rparr>, Bare \<lparr>src = ''b'', name = ''B''\<rparr>,
                Bare \<lparr>src = ''c'', name = ''C''\<rparr>]\<rparr>
     (Some (InPool 0)) (Idx 0) (Idx 2) ImagesElem False
   = Inr (\<lparr>title = ''Food'', rows = [],
           images = [Bare \<lparr>src = ''b'', name = ''B''\<rparr>, Bare \<lparr>src = ''c'', name = ''C''\<rparr>,
                     Wrapped \<lparr>src = ''a'', name = ''A''\<rparr>]\<rparr>, Idx 2)"
  by (simp add: on_drop_def splice1_def js_less_def insertBefore_def)

text \<open>An item that lies bare in the pool is never adjusted, whatever the indices.\<close>

lemma bare_pool_item_never_adjusted:
  assumes "k < length (images p)" and "images p ! k = Bare it"
  shows "\<exists>q. on_drop p (Some (InPool k)) old t ImagesElem on_row = Inr (q, t)"
  using assms by (simp add: on_drop_def)

text \<open>
  Claim C2, amended.  A row holds \<open>[A, B, C, D]\<close>; \<open>A\<close> is grabbed (source index 0) and
  dropped in the same row on an element that is not the row itself, with raw destination
  index 3.  The index becomes 2 and the row becomes \<open>[B, C, A, D]\<close>: \<open>A\<close> lands just left of
  \<open>D\<close>.
\<close>

theorem forward_move_in_row:
  assumes "r < length (rows p)" and "items (rows p ! r) = [a, b, c, d]"
  shows "\<exists>q. on_drop p (Some (InRow r 0)) (Idx 0) (Idx 3) (RowElem r) False = Inr (q, Idx 2)
           \<and> items (rows q ! r) = [b, c, a, d]
           \<and> length (rows q) = length (rows p)"
  using assms
  by (simp add: on_drop_def splice1_def js_less_def minus_one_def insertBefore_def)

theorem forward_move_in_row_witness:
  "\<exists>q. on_drop
     \<lparr>title = ''Food'',
      rows = [\<lparr>label = ''S'', background = None, items = []\<rparr>,
              \<lparr>label = ''A'', background = None,
               items = [\<lparr>src = ''a'', name = ''A''\<rparr>, \<lparr>src = ''b'', name = ''B''\<rparr>,
                        \<lparr>src = ''c'', name = ''C''\<rparr>, \<lparr>src = ''d'', name = ''D''\<rparr>]\<rparr>],
      images = []\<rparr>
     (Some (InRow 1 0)) (Idx 0) (Idx 3) (RowElem 1) False = Inr (q, Idx 2)
     \<and> items (rows q ! 1) = [\<lparr>src = ''b'', name = ''B''\<rparr>, \<lparr>src = ''c'', name = ''C''\<rparr>,
                               \<lparr>src = ''a'', name = ''A''\<rparr>, \<lparr>src = ''d'', name = ''D''\<rparr>]"
  using forward_move_in_row
    [of 1 "\<lparr>title = ''Food'',
      rows = [\<lparr>label = ''S'', background = None, items = []\<rparr>,
              \<lparr>label = ''A'', background = None,
               items = [\<lparr>src = ''a'', name = ''A''\<rparr>, \<lparr>src = ''b'', name = ''B''\<rparr>,
                        \<lparr>src = ''c'', name = ''C''\<rparr>, \<lparr>src = ''d'', name = ''D''\<rparr>]\<rparr>],
      images = []\<rparr>"
      "\<lparr>src = ''a'', name = ''A''\<rparr>" "\<lparr>src = ''b'', name = ''B''\<rparr>"
      "\<lparr>src = ''c'', name = ''C''\<rparr>" "\<lparr>src = ''d'', name = ''D''\<rparr>"]
  by auto

lemmas eval_index = get_item_index_def mousedown_def dragenter_def drop_event_def on_drop_def
  splice1_def js_less_def minus_one_def insertBefore_def

text \<open>
  Claim C2 as stated fails.  The row holds \<open>[A, B, C, D]\<close>; the mouse goes down on \<open>A\<close>,
  which sets the source index 0; the drag enters the \<open>span.item\<close> of \<open>D\<close>, which sets the
  raw destination index 3; the drop on it leaves the row as \<open>[B, C, A, D]\<close>, not
  \<open>[B, C, D, A]\<close>.
\<close>

theorem hover_item_span_counterexample:
  "old_item_index
     (mousedown 0 0
        \<lparr>doc = \<lparr>title = ''Food'',
                rows = [\<lparr>label = ''S'', background = None,
                         items = [\<lparr>src = ''a'', name = ''A''\<rparr>, \<lparr>src = ''b'', name = ''B''\<rparr>,
                                  \<lparr>src = ''c'', name = ''C''\<rparr>, \<lparr>src = ''d'', name = ''D''\<rparr>]\<rparr>],
                images = []\<rparr>,
         dragged_image = None, old_item_index = Undef, target_item_index = (\<lambda>e. Undef)\<rparr>)
     = Idx 0
   \<and> target_item_index
       (dragenter 0 (ItemSpan 3)
         (mousedown 0 0
            \<lparr>doc = \<lparr>title = ''Food'',
                    rows = [\<lparr>label = ''S'', background = None,
                             items = [\<lparr>src = ''a'', name = ''A''\<rparr>, \<lparr>src = ''b'', name = ''B''\<rparr>,
                                      \<lparr>src = ''c'', name = ''C''\<rparr>, \<lparr>src = ''d'', name = ''D''\<rparr>]\<rparr>],
                    images = []\<rparr>,
             dragged_image = None, old_item_index = Undef, target_item_index = (\<lambda>e. Undef)\<rparr>))
       (RowElem 0)
     = Idx 3
   \<and> map_sum id (\<lambda>s. map name (items (rows (doc s) ! 0)))
       (drop_event (RowElem 0) False
         (dragenter 0 (ItemSpan 3)
           (mousedown 0 0
              \<lparr>doc = \<lparr>title = ''Food'',
                      rows = [\<lparr>label = ''S'', background = None,
                               items = [\<lparr>src = ''a'', name = ''A''\<rparr>, \<lparr>src = ''b'', name = ''B''\<rparr>,
                                        \<lparr>src = ''c'', name = ''C''\<rparr>, \<lparr>src = ''d'', name = ''D''\<rparr>]\<rparr>],
                      images = []\<rparr>,
               dragged_image = None, old_item_index = Undef, target_item_index = (\<lambda>e. Undef)\<rparr>)))
     = Inr [''B'', ''C'', ''A'', ''D'']"
  by (simp add: eval_index)

text \<open>
  When the drag enters the image of \<open>D\<close> instead, the raw destination index is 6, the
  decremented 5 is beyond the children of the row, and the item is appended: the row
  becomes \<open>[B, C, D, A]\<close>.
\<close>

lemma hover_image_appends:
  "target_item_index
       (dragenter 0 (ItemImg 3)
         (mousedown 0 0
            \<lparr>doc = \<lparr>title = ''Food'',
                    rows = [\<lparr>label = ''S'', background = None,
                             items = [\<lparr>src = ''a'', name = ''A''\<rparr>, \<lparr>src = ''b'', name = ''B''\<rparr>,
                                      \<lparr>src = ''c'', name = ''C''\<rparr>, \<lparr>src = ''d'', name = ''D''\<rparr>]\<rparr>],
                    images = []\<rparr>,
             dragged_image = None, old_item_index = Undef, target_item_index = (\<lambda>e. Undef)\<rparr>))
       (RowElem 0)
     = Idx 6
   \<and> map_sum id (\<lambda>s. (map name (items (rows (doc s) ! 0)), target_item_index s (RowElem 0)))
       (drop_event (RowElem 0) False
         (dragenter 0 (ItemImg 3)
           (mousedown 0 0
              \<lparr>doc = \<lparr>title = ''Food'',
                      rows = [\<lparr>label = ''S'', background = None,
                               items = [\<lparr>src = ''a'', name = ''A''\<rparr>, \<lparr>src = ''b'', name = ''B''\<rparr>,
                                        \<lparr>src = ''c'', name = ''C''\<rparr>, \<lparr>src = ''d'', name = ''D''\<rparr>]\<rparr>],
                      images = []\<rparr>,
               dragged_image = None, old_item_index = Undef, target_item_index = (\<lambda>e. Undef)\<rparr>)))
     = Inr ([''B'', ''C'', ''D'', ''A''], Idx 5)"
  by (simp add: eval_index)

lemma first_index_none: "list_all (\<lambda>x. \<not> P x) xs \<Longrightarrow> first_index P xs = None"
  by (induction xs) simp_all

lemma first_index_item_list:
  assumes "a \<le> k" and "k < b"
    and "P (ItemContainer k)"
    and "\<And>j. j \<noteq> k \<Longrightarrow> \<not> P (ItemContainer j) \<and> \<not> P (ItemImg j)"
  shows "first_index P (concat (map (\<lambda>j. [ItemContainer j, ItemImg j]) [a..<b])) = Some (2 * (k - a))"
  using assms(1,2)
proof (induction "k - a" arbitrary: a)
  case 0
  then have "[a..<b] = k # [Suc k..<b]"
    by (simp add: upt_conv_Cons)
  with assms(3) 0 show ?case
    by simp
next
  case (Suc d)
  then have l: "[a..<b] = a # [Suc a..<b]" and n: "a \<noteq> k"
    by (simp_all add: upt_conv_Cons)
  from Suc have "first_index P (concat (map (\<lambda>j. [ItemContainer j, ItemImg j]) [Suc a..<b]))
                   = Some (2 * (k - Suc a))"
    by (intro Suc.hyps) simp_all
  with assms(4) [OF n] Suc.hyps(2) show ?case
    unfolding l by simp
qed

lemma first_index_item_spans:
  assumes "a \<le> k" and "k < b"
    and "P (ItemSpan k)"
    and "\<And>j. j \<noteq> k \<Longrightarrow> \<not> P (ItemSpan j)"
  shows "first_index P (map ItemSpan [a..<b]) = Some (k - a)"
  using assms(1,2)
proof (induction "k - a" arbitrary: a)
  case 0
  then have "[a..<b] = k # [Suc k..<b]"
    by (simp add: upt_conv_Cons)
  with assms(3) 0 show ?case
    by simp
next
  case (Suc d)
  then have l: "[a..<b] = a # [Suc a..<b]" and n: "a \<noteq> k"
    by (simp_all add: upt_conv_Cons)
  from Suc have "first_index P (map ItemSpan [Suc a..<b]) = Some (k - Suc a)"
    by (intro Suc.hyps) simp_all
  with assms(4) [OF n] Suc.hyps(2) show ?case
    unfolding l by simp
qed

text \<open>
  What \<open>get_item_index\<close> returns in a row: twice the position for the container, the image
  or the label of an item, the position itself for the \<open>span.item\<close> around it, and \<open>null\<close>
  for the header.
\<close>

lemma get_item_index_values:
  assumes "r < length (rows p)" and "k < length (items (rows p ! r))"
  shows "get_item_index p r (ItemContainer k) = Idx (2 * int k)"
    and "get_item_index p r (ItemImg k) = Idx (2 * int k)"
    and "get_item_index p r (ItemLabel k) = Idx (2 * int k)"
    and "get_item_index p r (ItemSpan k) = Idx (int k)"
    and "get_item_index p r Header = Null"
proof -
  let ?n = "length (items (rows p ! r))"
  let ?l = "concat (map (\<lambda>j. [ItemContainer j, ItemImg j]) [0..<?n])"
  have c: "first_index (\<lambda>x. x = ItemContainer k \<or> contains x (ItemContainer k)) ?l = Some (2 * (k - 0))"
    using assms(2) by (intro first_index_item_list) auto
  have i: "first_index (\<lambda>x. x = ItemImg k \<or> contains x (ItemImg k)) ?l = Some (2 * (k - 0))"
    using assms(2) by (intro first_index_item_list) auto
  have l: "first_index (\<lambda>x. x = ItemLabel k \<or> contains x (ItemLabel k)) ?l = Some (2 * (k - 0))"
    using assms(2) by (intro first_index_item_list) auto
  have s1: "first_index (\<lambda>x. x = ItemSpan k \<or> contains x (ItemSpan k)) ?l = None"
    by (rule first_index_none) (simp add: list_all_iff)
  have s2: "first_index (\<lambda>x. x = item_elem_of (ItemSpan k) \<or> contains x (ItemSpan k))
              (map ItemSpan [0..<?n]) = Some (k - 0)"
    using assms(2) by (intro first_index_item_spans) auto
  have h1: "first_index (\<lambda>x. x = Header \<or> contains x Header) ?l = None"
    by (rule first_index_none) (simp add: list_all_iff)
  have h2: "first_index (\<lambda>x. x = item_elem_of Header \<or> contains x Header)
              (map ItemSpan [0..<?n]) = None"
    by (rule first_index_none) (simp add: list_all_iff)
  show "get_item_index p r (ItemContainer k) = Idx (2 * int k)"
    using assms(1) c by (simp add: get_item_index_def)
  show "get_item_index p r (ItemImg k) = Idx (2 * int k)"
    using assms(1) i by (simp add: get_item_index_def)
  show "get_item_index p r (ItemLabel k) = Idx (2 * int k)"
    using assms(1) l by (simp add: get_item_index_def)
  show "get_item_index p r (ItemSpan k) = Idx (int k)"
    using assms(1) s1 s2 by (simp add: get_item_index_def)
  show "get_item_index p r Header = Null"
    using assms(1) h1 h2 by (simp add: get_item_index_def)
qed

end
